theory Spec2Isabelle
  imports Complex_Main "HOL-Library.Multiset" "HOL-Library.List_Lexorder" "HOL-Library.Char_ord"
begin

unbundle bit_operations_syntax

section \<open>Data model (src/core/types.ts)\<close>

text \<open>
  \<^verbatim>\<open>type ProviderName = 'github' | 'sourcegraph'\<close> is a union of two string literals.
  \<open>provider_string\<close> gives the JavaScript string behind each name: the default
  \<^verbatim>\<open>Array.prototype.sort()\<close> compares these strings, and \<^verbatim>\<open>JSON.stringify\<close> prints them.
\<close>

datatype ProviderName = Github | Sourcegraph

fun provider_string :: "ProviderName \<Rightarrow> string" where
  "provider_string Github = ''github''"
| "provider_string Sourcegraph = ''sourcegraph''"

text \<open>
  \<^verbatim>\<open>SearchFilters\<close> is an object with seven optional properties. A JavaScript object keeps
  its string keys in insertion order, and a key can be present with the value
  \<^verbatim>\<open>undefined\<close>; both facts are visible to \<^verbatim>\<open>Object.entries\<close> and \<^verbatim>\<open>JSON.stringify\<close>. The
  object is therefore a list of (key, value) pairs in insertion order; an absent key has
  no pair, an explicit \<^verbatim>\<open>undefined\<close> has the pair \<open>(k, Undefined)\<close>.
\<close>

datatype FilterKey = Language | Repo | Org | Path | Filename | Extension | Regex

fun key_string :: "FilterKey \<Rightarrow> string" where
  "key_string Language = ''language''"
| "key_string Repo = ''repo''"
| "key_string Org = ''org''"
| "key_string Path = ''path''"
| "key_string Filename = ''filename''"
| "key_string Extension = ''extension''"
| "key_string Regex = ''regex''"

datatype FilterValue = Undefined | Str string | Bool bool

type_synonym SearchFilters = "(FilterKey \<times> FilterValue) list"

text \<open>
  \<^verbatim>\<open>number\<close> fields that hold counts and durations are integers here (\<open>limit\<close>,
  \<open>cacheTTL\<close>, \<open>elapsed_ms\<close>, \<open>total\<close>), and \<open>stars\<close> is a natural number. \<open>score\<close> is a
  finite double (the type documents it as normalized to 0-1), held as the real number that
  the double denotes. An optional property is an \<open>option\<close>.
\<close>

record SearchQuery =
  q_q :: string
  q_providers :: "ProviderName list"
  q_filters :: SearchFilters
  q_limit :: int
  q_cacheTTL :: "int option"

record SearchResult =
  res_url :: string
  res_rawUrl :: string
  res_repo :: string
  res_path :: string
  res_lines :: "int \<times> int"
  res_snippet :: string
  res_language :: string
  res_stars :: nat
  res_provider :: ProviderName
  res_score :: real

datatype ErrorCode = RATE_LIMIT | AUTH | TIMEOUT | UNKNOWN

text \<open>
  An element of \<^verbatim>\<open>errors\<close> is typed \<^verbatim>\<open>ProviderError\<close>, but the engine pushes the rejection
  reason itself when \<^verbatim>\<open>isProviderError\<close> accepts it, and the adapters reject with an
  \<^verbatim>\<open>Error\<close> object, whose \<^verbatim>\<open>message\<close> is not enumerable. A property of such an object is
  therefore absent, or present and enumerable, or present but hidden from
  \<^verbatim>\<open>JSON.stringify\<close> (not enumerable, or inherited). \<open>prop_value\<close> is the read \<^verbatim>\<open>obj.prop\<close>
  (\<open>None\<close> for \<^verbatim>\<open>undefined\<close>), \<open>has_property\<close> is \<^verbatim>\<open>'prop' in obj\<close>, and \<open>json_property\<close> is
  what is left of the property after \<^verbatim>\<open>JSON.parse(JSON.stringify(obj))\<close>.
\<close>

datatype 'a js_property = Absent | Enumerable 'a | Hidden 'a

fun prop_value :: "'a js_property \<Rightarrow> 'a option" where
  "prop_value Absent = None"
| "prop_value (Enumerable x) = Some x"
| "prop_value (Hidden x) = Some x"

fun has_property :: "'a js_property \<Rightarrow> bool" where
  "has_property Absent = False"
| "has_property (Enumerable x) = True"
| "has_property (Hidden x) = True"

fun json_property :: "'a js_property \<Rightarrow> 'a js_property" where
  "json_property Absent = Absent"
| "json_property (Enumerable x) = Enumerable x"
| "json_property (Hidden x) = Absent"

record ProviderError =
  pe_provider :: "ProviderName js_property"
  pe_message :: "string js_property"
  pe_code :: "ErrorCode js_property"

text \<open>
  \<open>resp_search_elapsed_ms\<close> is the extra property \<^verbatim>\<open>search_elapsed_ms\<close> that only the
  cache-hit branch of \<^verbatim>\<open>SearchEngine.search\<close> adds to the object it returns.
\<close>

record SearchResponse =
  resp_query :: SearchQuery
  resp_results :: "SearchResult list"
  resp_total :: int
  resp_cached :: bool
  resp_elapsed_ms :: int
  resp_errors :: "ProviderError list"
  resp_search_elapsed_ms :: "int option"

section \<open>normalizeQuery (src/core/types.ts)\<close>

text \<open>
  \<^verbatim>\<open>filters[k] = v\<close> on the object under construction: an existing key keeps its position
  and takes the new value, a new key is appended.
\<close>

fun obj_set :: "'k \<Rightarrow> 'v \<Rightarrow> ('k \<times> 'v) list \<Rightarrow> ('k \<times> 'v) list" where
  "obj_set k v [] = [(k, v)]"
| "obj_set k v ((k', v') # kvs) =
     (if k' = k then (k, v) # kvs else (k', v') # obj_set k v kvs)"

text \<open>
  The loop \<^verbatim>\<open>for (const [k, v] of Object.entries(query.filters)) if (v !== undefined) filters[k] = v\<close>,
  with the object built so far as accumulator.
\<close>

fun copy_defined :: "SearchFilters \<Rightarrow> SearchFilters \<Rightarrow> SearchFilters" where
  "copy_defined acc [] = acc"
| "copy_defined acc ((k, v) # kvs) =
     (if v \<noteq> Undefined then copy_defined (obj_set k v acc) kvs else copy_defined acc kvs)"

text \<open>
  \<^verbatim>\<open>[...query.providers].sort()\<close>: the default comparison is by the elements' strings, code
  unit by code unit, and the sort is stable, so the result is the stable ascending sort by
  \<open>provider_string\<close>.
\<close>

definition sort_providers :: "ProviderName list \<Rightarrow> ProviderName list" where
  "sort_providers ps = sort_key provider_string ps"

definition normalizeQuery :: "SearchQuery \<Rightarrow> SearchQuery" where
  "normalizeQuery query =
     (let filters = copy_defined [] (q_filters query)
      in query\<lparr>q_providers := sort_providers (q_providers query), q_filters := filters\<rparr>)"

section \<open>aggregate (src/core/engine.ts)\<close>

text \<open>
  The filter callback with its \<^verbatim>\<open>seen\<close> set: a result whose url is in the set is dropped,
  any other is kept and its url added.
\<close>

fun dedup :: "string set \<Rightarrow> SearchResult list \<Rightarrow> SearchResult list" where
  "dedup seen [] = []"
| "dedup seen (r # rs) =
     (if res_url r \<in> seen then dedup seen rs else r # dedup (insert (res_url r) seen) rs)"

text \<open>
  \<^verbatim>\<open>r.score * Math.log(r.stars + 1)\<close> is computed in double precision. A finite double is
  represented by the real number it denotes. A star count is an integer below \<open>2\<^sup>5\<^sup>3\<close>, so
  \<^verbatim>\<open>r.stars + 1\<close> is exact and at least 1, and its logarithm and the product with the score
  are finite. The product of two doubles and \<^verbatim>\<open>Math.log\<close> are what the platform computes
  (the rounded product, and a logarithm that the language leaves to the implementation to
  approximate); they are parameters of the model, and nothing is assumed of them.
\<close>

record Float64 =
  f64_mul :: "real \<Rightarrow> real \<Rightarrow> real"
  Math_log :: "real \<Rightarrow> real"

definition rank :: "Float64 \<Rightarrow> SearchResult \<Rightarrow> real" where
  "rank fl r = f64_mul fl (res_score r) (Math_log fl (real (res_stars r) + 1))"

text \<open>
  \<^verbatim>\<open>Array.prototype.sort(cmp)\<close> is stable, and with a consistent comparison function its
  result is determined: it is the one of a stable insertion sort, where \<open>x\<close> goes in front
  of the first \<open>y\<close> with \<open>cmp x y \<le> 0\<close>. The comparison \<^verbatim>\<open>b._rank - a._rank\<close> of two finite
  doubles has the sign of their exact difference, and the sort reads only the sign.
\<close>

fun js_insort :: "('a \<Rightarrow> 'a \<Rightarrow> real) \<Rightarrow> 'a \<Rightarrow> 'a list \<Rightarrow> 'a list" where
  "js_insort cmp x [] = [x]"
| "js_insort cmp x (y # ys) = (if cmp x y \<le> 0 then x # y # ys else y # js_insort cmp x ys)"

definition js_sort :: "('a \<Rightarrow> 'a \<Rightarrow> real) \<Rightarrow> 'a list \<Rightarrow> 'a list" where
  "js_sort cmp xs = foldr (js_insort cmp) xs []"

text \<open>
  \<^verbatim>\<open>xs.slice(0, end)\<close>: a negative \<open>end\<close> counts from the end of the array.
\<close>

definition slice0 :: "'a list \<Rightarrow> int \<Rightarrow> 'a list" where
  "slice0 xs e = (if e < 0 then take (nat (int (length xs) + e)) xs else take (nat e) xs)"

definition unique_results :: "SearchResult list \<Rightarrow> SearchResult list" where
  "unique_results results = dedup {} results"

definition ranked_results :: "Float64 \<Rightarrow> SearchResult list \<Rightarrow> (SearchResult \<times> real) list" where
  "ranked_results fl results =
     js_sort (\<lambda>a b. snd b - snd a) (map (\<lambda>r. (r, rank fl r)) (unique_results results))"

definition aggregate :: "Float64 \<Rightarrow> SearchResult list \<Rightarrow> int \<Rightarrow> SearchResult list" where
  "aggregate fl results limit = map fst (slice0 (ranked_results fl results) limit)"

section \<open>hashQuery (src/core/engine.ts)\<close>

subsection \<open>JSON.stringify of a query\<close>

text \<open>
  A \<open>string\<close> holds the UTF-8 bytes of the JavaScript string. \<^verbatim>\<open>JSON.stringify\<close> quotes a
  string by escaping the double quote, the backslash and the control characters below
  0x20, and copies every other character; in UTF-8 that is a byte-wise operation.
\<close>

definition hex_digit :: "nat \<Rightarrow> char" where
  "hex_digit n = ''0123456789abcdef'' ! n"

definition quote_char :: "char \<Rightarrow> string" where
  "quote_char c =
     (let n = (of_char c :: nat)
      in if n = 0x08 then [CHR 0x5C, CHR ''b'']
         else if n = 0x09 then [CHR 0x5C, CHR ''t'']
         else if n = 0x0A then [CHR 0x5C, CHR ''n'']
         else if n = 0x0C then [CHR 0x5C, CHR ''f'']
         else if n = 0x0D then [CHR 0x5C, CHR ''r'']
         else if n = 0x22 then [CHR 0x5C, CHR 0x22]
         else if n = 0x5C then [CHR 0x5C, CHR 0x5C]
         else if n < 0x20 then [CHR 0x5C, CHR ''u'', CHR ''0'', CHR ''0'',
                                 hex_digit (n div 16), hex_digit (n mod 16)]
         else [c])"

definition json_string :: "string \<Rightarrow> string" where
  "json_string s = [CHR 0x22] @ concat (map quote_char s) @ [CHR 0x22]"

text \<open>
  The decimal digits of a natural number, and \<^verbatim>\<open>Number.prototype.toString\<close> on an integer
  (below \<open>10\<^sup>2\<^sup>1\<close> in absolute value, where JavaScript switches to exponent notation).
\<close>

fun digits :: "nat \<Rightarrow> string" where
  "digits n = (if n < 10 then [hex_digit n] else digits (n div 10) @ [hex_digit (n mod 10)])"

definition json_number :: "int \<Rightarrow> string" where
  "json_number i = (if i < 0 then CHR ''-'' # digits (nat (- i)) else digits (nat i))"

fun join_comma :: "string list \<Rightarrow> string" where
  "join_comma [] = []"
| "join_comma [x] = x"
| "join_comma (x # y # ys) = x @ '','' @ join_comma (y # ys)"

text \<open>
  A property whose value is \<^verbatim>\<open>undefined\<close> is left out of the JSON text of an object.
\<close>

fun json_filter_entry :: "FilterKey \<times> FilterValue \<Rightarrow> string list" where
  "json_filter_entry (k, Undefined) = []"
| "json_filter_entry (k, Str s) = [json_string (key_string k) @ '':'' @ json_string s]"
| "json_filter_entry (k, Bool b) =
     [json_string (key_string k) @ '':'' @ (if b then ''true'' else ''false'')]"

definition json_filters :: "SearchFilters \<Rightarrow> string" where
  "json_filters fs = ''{'' @ join_comma (concat (map json_filter_entry fs)) @ ''}''"

text \<open>
  The properties of the query object are printed in the order of the interface
  declaration, which is the order of the object literals that build a query in this
  repository; the spread \<^verbatim>\<open>{...query, providers, filters}\<close> of \<^verbatim>\<open>normalizeQuery\<close> keeps
  the positions of the keys of \<open>query\<close>.
\<close>

definition JSON_stringify :: "SearchQuery \<Rightarrow> string" where
  "JSON_stringify query =
     ''{'' @ join_comma
       ([json_string ''q'' @ '':'' @ json_string (q_q query),
         json_string ''providers'' @ '':'' @
           ''['' @ join_comma (map (\<lambda>p. json_string (provider_string p)) (q_providers query)) @ '']'',
         json_string ''filters'' @ '':'' @ json_filters (q_filters query),
         json_string ''limit'' @ '':'' @ json_number (q_limit query)]
        @ (case q_cacheTTL query of
             None \<Rightarrow> []
           | Some t \<Rightarrow> [json_string ''cacheTTL'' @ '':'' @ json_number t]))
     @ ''}''"

declare digits.simps [simp del]

subsection \<open>SHA-256 (node:crypto)\<close>

text \<open>
  \<^verbatim>\<open>createHash('sha256').update(s).digest('hex')\<close> is the SHA-256 of FIPS 180-4 applied to
  the UTF-8 bytes of \<open>s\<close>, printed as 64 lower-case hexadecimal digits. A 32-bit word is
  a natural number below \<open>2\<^sup>3\<^sup>2\<close>; addition wraps around explicitly.
\<close>

definition add32 :: "nat \<Rightarrow> nat \<Rightarrow> nat" where
  "add32 x y = (x + y) mod 4294967296"

definition rotr :: "nat \<Rightarrow> nat \<Rightarrow> nat" where
  "rotr n x = x div 2 ^ n + (x mod 2 ^ n) * 2 ^ (32 - n)"

definition Ch :: "nat \<Rightarrow> nat \<Rightarrow> nat \<Rightarrow> nat" where
  "Ch x y z = (x AND y) XOR ((4294967295 - x) AND z)"

definition Maj :: "nat \<Rightarrow> nat \<Rightarrow> nat \<Rightarrow> nat" where
  "Maj x y z = (x AND y) XOR (x AND z) XOR (y AND z)"

definition Sigma0 :: "nat \<Rightarrow> nat" where
  "Sigma0 x = rotr 2 x XOR rotr 13 x XOR rotr 22 x"

definition Sigma1 :: "nat \<Rightarrow> nat" where
  "Sigma1 x = rotr 6 x XOR rotr 11 x XOR rotr 25 x"

definition sigma0 :: "nat \<Rightarrow> nat" where
  "sigma0 x = rotr 7 x XOR rotr 18 x XOR x div 2 ^ 3"

definition sigma1 :: "nat \<Rightarrow> nat" where
  "sigma1 x = rotr 17 x XOR rotr 19 x XOR x div 2 ^ 10"

text \<open>
  The round constants and the initial hash value of FIPS 180-4 (sections 4.2.2 and 5.3.3),
  in decimal.
\<close>

definition K256 :: "nat list" where
  "K256 = [
    1116352408, 1899447441, 3049323471, 3921009573, 961987163, 1508970993, 2453635748, 2870763221,
    3624381080, 310598401, 607225278, 1426881987, 1925078388, 2162078206, 2614888103, 3248222580,
    3835390401, 4022224774, 264347078, 604807628, 770255983, 1249150122, 1555081692, 1996064986,
    2554220882, 2821834349, 2952996808, 3210313671, 3336571891, 3584528711, 113926993, 338241895,
    666307205, 773529912, 1294757372, 1396182291, 1695183700, 1986661051, 2177026350, 2456956037,
    2730485921, 2820302411, 3259730800, 3345764771, 3516065817, 3600352804, 4094571909, 275423344,
    430227734, 506948616, 659060556, 883997877, 958139571, 1322822218, 1537002063, 1747873779,
    1955562222, 2024104815, 2227730452, 2361852424, 2428436474, 2756734187, 3204031479, 3329325298]"

definition H256 :: "nat list" where
  "H256 = [1779033703, 3144134277, 1013904242, 2773480762, 1359893119, 2600822924, 528734635, 1541459225]"





text \<open>
  One round works on the eight working variables \<open>v = [a, b, c, d, e, f, g, h]\<close> and on
  the window \<open>w = [W\<^sub>t, \<dots>, W\<^sub>t\<^sub>+\<^sub>1\<^sub>5]\<close> of the message schedule, which moves on by one word.
\<close>

definition T1 :: "nat list \<Rightarrow> nat \<Rightarrow> nat \<Rightarrow> nat" where
  "T1 v k w = add32 (add32 (add32 (add32 (v ! 7) (Sigma1 (v ! 4))) (Ch (v ! 4) (v ! 5) (v ! 6))) k) w"

definition T2 :: "nat list \<Rightarrow> nat" where
  "T2 v = add32 (Sigma0 (v ! 0)) (Maj (v ! 0) (v ! 1) (v ! 2))"

definition next_vars :: "nat list \<Rightarrow> nat \<Rightarrow> nat \<Rightarrow> nat list" where
  "next_vars v t1 t2 = [add32 t1 t2, v ! 0, v ! 1, v ! 2, add32 (v ! 3) t1, v ! 4, v ! 5, v ! 6]"

definition next_window :: "nat list \<Rightarrow> nat list" where
  "next_window w = tl w @ [add32 (add32 (add32 (sigma1 (w ! 14)) (w ! 9)) (sigma0 (w ! 1))) (w ! 0)]"

fun rounds :: "nat list \<Rightarrow> nat list \<Rightarrow> nat list \<Rightarrow> nat list" where
  "rounds v w [] = v"
| "rounds v w (k # ks) = rounds (next_vars v (T1 v k (w ! 0)) (T2 v)) (next_window w) ks"

fun add_words :: "nat list \<Rightarrow> nat list \<Rightarrow> nat list" where
  "add_words (x # xs) (y # ys) = add32 x y # add_words xs ys"
| "add_words _ _ = []"

definition compress :: "nat list \<Rightarrow> nat list \<Rightarrow> nat list" where
  "compress hs block = add_words hs (rounds hs block K256)"

definition be_word :: "nat list \<Rightarrow> nat" where
  "be_word bs = foldl (\<lambda>acc b. acc * 256 + b) 0 bs"

fun chunks :: "nat \<Rightarrow> 'a list \<Rightarrow> 'a list list" where
  "chunks n [] = []"
| "chunks n (x # xs) = (if n = 0 then [x # xs] else take n (x # xs) # chunks n (drop n (x # xs)))"

definition be_bytes8 :: "nat \<Rightarrow> nat list" where
  "be_bytes8 n = map (\<lambda>i. (n div 256 ^ i) mod 256) [7, 6, 5, 4, 3, 2, 1, 0]"

text \<open>Padding: the byte 0x80, zero bytes up to 56 modulo 64, the bit length in 8 bytes.\<close>

definition pad :: "nat list \<Rightarrow> nat list" where
  "pad m = m @ [0x80] @ replicate ((119 - length m mod 64) mod 64) 0 @ be_bytes8 (8 * length m)"

definition sha256_words :: "nat list \<Rightarrow> nat list" where
  "sha256_words m =
     foldl compress H256 (map (\<lambda>blk. map be_word (chunks 4 blk)) (chunks 64 (pad m)))"

definition hex_word :: "nat \<Rightarrow> string" where
  "hex_word x = map (\<lambda>i. hex_digit ((x div 16 ^ i) mod 16)) [7, 6, 5, 4, 3, 2, 1, 0]"

definition sha256_hex :: "string \<Rightarrow> string" where
  "sha256_hex s = concat (map hex_word (sha256_words (map of_char s)))"

definition hashQuery :: "SearchQuery \<Rightarrow> string" where
  "hashQuery query = sha256_hex (JSON_stringify query)"

section \<open>The database, the clock and the providers\<close>

text \<open>
  Both SQLite tables live in one \<open>World\<close>, together with what the engine does to the
  outside: the log of the provider adapters it has invoked and the number of times the
  clock has been read. The environment \<open>Env\<close> fixes what the outside answers: \<open>clk env i\<close>
  is the value of the \<open>i\<close>-th call of \<^verbatim>\<open>Date.now()\<close> (milliseconds), \<open>db_fault env i\<close>
  says that the database statement of the operation that makes the \<open>i\<close>-th clock reading
  throws (every operation of both repositories reads the clock exactly once), and
  \<open>arith env\<close> is the double-precision arithmetic of the platform.
\<close>

record CacheRow =
  row_value :: SearchResponse
  row_created_at :: int
  row_expires_at :: int

record MetricRecord =
  m_provider :: ProviderName
  m_query :: "string option"
  m_cacheHit :: bool
  m_results :: "int option"
  m_elapsedMs :: "int option"
  m_error :: "string option"

record MetricsRow =
  mrow_ts :: int
  mrow_provider :: ProviderName
  mrow_query :: "string option"
  mrow_cache_hit :: int
  mrow_results :: "int option"
  mrow_elapsed_ms :: "int option"
  mrow_error :: "string option"

record World =
  cache_tbl :: "string \<rightharpoonup> CacheRow"
  metrics_tbl :: "MetricsRow list"
  calls :: "(ProviderName \<times> SearchQuery) list"
  tick :: nat

record Env =
  clk :: "nat \<Rightarrow> int"
  db_fault :: "nat \<Rightarrow> bool"
  arith :: Float64

datatype DbError = SqliteError

definition Date_now :: "Env \<Rightarrow> World \<Rightarrow> int \<times> World" where
  "Date_now env w = (clk env (tick w), w\<lparr>tick := Suc (tick w)\<rparr>)"

section \<open>SqliteCacheRepository (src/cache/sqlite.ts)\<close>

text \<open>
  The table has \<open>key\<close> as primary key, so it is a map from keys to rows. The \<open>value\<close>
  column holds the text \<^verbatim>\<open>JSON.stringify(value)\<close>, and \<open>get\<close> returns \<^verbatim>\<open>JSON.parse\<close> of it. A
  row of the model holds that text as the response it parses to, \<open>json_roundtrip value\<close>:
  the text has no property whose value is \<^verbatim>\<open>undefined\<close> and no property that is not an
  enumerable own property, so an explicitly undefined filter is gone, and so is the
  \<^verbatim>\<open>message\<close> of an error that is an \<^verbatim>\<open>Error\<close> object; strings, finite numbers, booleans and
  arrays come back as they were. A rejected promise is \<open>Inl\<close>.
\<close>

definition json_error :: "ProviderError \<Rightarrow> ProviderError" where
  "json_error e =
     \<lparr>pe_provider = json_property (pe_provider e), pe_message = json_property (pe_message e),
      pe_code = json_property (pe_code e)\<rparr>"

definition json_roundtrip :: "SearchResponse \<Rightarrow> SearchResponse" where
  "json_roundtrip r =
     r\<lparr>resp_query :=
         (resp_query r)\<lparr>q_filters :=
            filter (\<lambda>kv. snd kv \<noteq> Undefined) (q_filters (resp_query r))\<rparr>,
       resp_errors := map json_error (resp_errors r)\<rparr>"

definition cache_get :: "Env \<Rightarrow> string \<Rightarrow> World \<Rightarrow> (DbError + SearchResponse option) \<times> World" where
  "cache_get env key w =
     (let (t, w') = Date_now env w;
          now = t div 1000
      in if db_fault env (tick w) then (Inl SqliteError, w')
         else (case cache_tbl w' key of
                 None \<Rightarrow> (Inr None, w')
               | Some row \<Rightarrow>
                   if row_expires_at row > now then (Inr (Some (row_value row)), w')
                   else (Inr None, w')))"

definition cache_set ::
    "Env \<Rightarrow> string \<Rightarrow> SearchResponse \<Rightarrow> int \<Rightarrow> World \<Rightarrow> (DbError + unit) \<times> World" where
  "cache_set env key val ttlSec w =
     (let (t, w') = Date_now env w;
          now = t div 1000
      in if db_fault env (tick w) then (Inl SqliteError, w')
         else (Inr (),
               w'\<lparr>cache_tbl := (cache_tbl w')(key \<mapsto>
                    \<lparr>row_value = json_roundtrip val, row_created_at = now,
                     row_expires_at = now + ttlSec\<rparr>)\<rparr>))"

section \<open>SqliteMetrics (src/core/metrics.ts)\<close>

definition metrics_record :: "Env \<Rightarrow> MetricRecord \<Rightarrow> World \<Rightarrow> (DbError + unit) \<times> World" where
  "metrics_record env m w =
     (let (t, w') = Date_now env w
      in if db_fault env (tick w) then (Inl SqliteError, w')
         else (Inr (),
               w'\<lparr>metrics_tbl := metrics_tbl w' @
                    [\<lparr>mrow_ts = t div 1000,
                      mrow_provider = m_provider m,
                      mrow_query = m_query m,
                      mrow_cache_hit = (if m_cacheHit m then 1 else 0),
                      mrow_results = m_results m,
                      mrow_elapsed_ms = m_elapsedMs m,
                      mrow_error = m_error m\<rparr>]\<rparr>))"

text \<open>
  \<^verbatim>\<open>sorted[i]\<close> is \<^verbatim>\<open>undefined\<close> outside the array, and \<^verbatim>\<open>?? 0\<close> turns that into 0.
\<close>

definition js_index :: "'a list \<Rightarrow> int \<Rightarrow> 'a option" where
  "js_index xs i = (if 0 \<le> i \<and> i < int (length xs) then Some (xs ! nat i) else None)"

definition percentile :: "int list \<Rightarrow> real \<Rightarrow> int" where
  "percentile sorted_arr p =
     (if length sorted_arr = 0 then 0
      else (let idx = \<lceil>real (length sorted_arr) * p\<rceil> - 1
            in case js_index sorted_arr (max 0 (min idx (int (length sorted_arr) - 1))) of
                 None \<Rightarrow> 0
               | Some x \<Rightarrow> x))"

text \<open>
  One row of the \<^verbatim>\<open>GROUP BY provider\<close> query. \<open>g_latencies\<close> is the
  \<^verbatim>\<open>GROUP_CONCAT(elapsed_ms)\<close> column: \<open>None\<close> for NULL (no row of the group has an
  \<open>elapsed_ms\<close>), otherwise the non-NULL values in row order, which the callback gets as
  comma-separated text and parses back with \<^verbatim>\<open>split(',').map(Number)\<close>.
\<close>

record SqlGroup =
  g_provider :: ProviderName
  g_requests :: int
  g_errors :: int
  g_hits :: int
  g_latencies :: "int list option"

record ProviderStats =
  st_provider :: ProviderName
  st_requests :: int
  st_errors :: int
  st_p50 :: int
  st_p95 :: int
  st_p99 :: int
  st_cacheHitRate :: real

definition sql_group :: "MetricsRow list \<Rightarrow> ProviderName \<Rightarrow> SqlGroup" where
  "sql_group rows p =
     (let grp = filter (\<lambda>r. mrow_provider r = p) rows;
          lats = concat (map (\<lambda>r. case mrow_elapsed_ms r of None \<Rightarrow> [] | Some e \<Rightarrow> [e]) grp)
      in \<lparr>g_provider = p,
          g_requests = int (length grp),
          g_errors = int (length (filter (\<lambda>r. mrow_error r \<noteq> None) grp)),
          g_hits = sum_list (map mrow_cache_hit grp),
          g_latencies = (if lats = [] then None else Some lats)\<rparr>)"

definition stats_row :: "SqlGroup \<Rightarrow> ProviderStats" where
  "stats_row r =
     (let lats = (case g_latencies r of None \<Rightarrow> [] | Some ls \<Rightarrow> sort ls)
      in \<lparr>st_provider = g_provider r,
          st_requests = g_requests r,
          st_errors = g_errors r,
          st_p50 = percentile lats (1/2),
          st_p95 = percentile lats (95/100),
          st_p99 = percentile lats (99/100),
          st_cacheHitRate =
            (if g_requests r > 0 then real_of_int (g_hits r) / real_of_int (g_requests r) else 0)\<rparr>)"

definition metrics_stats :: "Env \<Rightarrow> int \<Rightarrow> World \<Rightarrow> (DbError + ProviderStats list) \<times> World" where
  "metrics_stats env sinceSec w =
     (let (t, w') = Date_now env w;
          since = t div 1000 - sinceSec;
          rows = filter (\<lambda>r. mrow_ts r \<ge> since) (metrics_tbl w');
          groups = map (sql_group rows)
                     (filter (\<lambda>p. p \<in> set (map mrow_provider rows)) [Github, Sourcegraph])
      in if db_fault env (tick w) then (Inl SqliteError, w')
         else (Inr (map stats_row groups), w'))"

section \<open>isProviderError (src/core/types.ts)\<close>

text \<open>
  The reason of a rejected promise is any JavaScript value. What the engine looks at is
  whether it is a non-null object, its properties \<^verbatim>\<open>provider\<close>, \<^verbatim>\<open>message\<close> and \<^verbatim>\<open>code\<close>, and
  the string \<^verbatim>\<open>String(err)\<close>.
\<close>

record Reason =
  rsn_is_object :: bool
  rsn_provider :: "ProviderName js_property"
  rsn_message :: "string js_property"
  rsn_code :: "ErrorCode js_property"
  rsn_string :: string

definition isProviderError :: "Reason \<Rightarrow> bool" where
  "isProviderError v \<longleftrightarrow>
     rsn_is_object v \<and> has_property (rsn_provider v) \<and> has_property (rsn_message v)
     \<and> has_property (rsn_code v)"

text \<open>
  The cast \<^verbatim>\<open>err as ProviderError\<close>: the element pushed is the reason itself, with the three
  properties as it has them.
\<close>

definition as_ProviderError :: "Reason \<Rightarrow> ProviderError" where
  "as_ProviderError v =
     \<lparr>pe_provider = rsn_provider v, pe_message = rsn_message v, pe_code = rsn_code v\<rparr>"

section \<open>SearchEngine.search (src/core/engine.ts)\<close>

text \<open>
  A provider adapter answers a query with a promise, which \<^verbatim>\<open>Promise.allSettled\<close> turns
  into a settlement; every adapter bounds its own request, so the promise is taken to
  settle. The engine holds the configured adapters by name and the default TTL. The calls
  of the logger do not touch the response or the tables and are left out.
\<close>

datatype Settlement = Fulfilled "SearchResult list" | Rejected Reason

record Provider =
  p_name :: ProviderName
  p_search :: "SearchQuery \<Rightarrow> Settlement"

record Engine =
  eng_providers :: "ProviderName \<rightharpoonup> Provider"
  eng_defaultTTL :: int

text \<open>
  The loop over the settlements, with the arrays \<^verbatim>\<open>results\<close> and \<^verbatim>\<open>errors\<close> and the world as
  accumulator. The result of \<^verbatim>\<open>metrics.record(...).catch(() => {})\<close> is dropped either way.
\<close>

fun collect ::
    "Env \<Rightarrow> SearchQuery \<Rightarrow> int \<Rightarrow> (Settlement \<times> Provider) list \<Rightarrow>
     SearchResult list \<times> ProviderError list \<times> World \<Rightarrow>
     SearchResult list \<times> ProviderError list \<times> World" where
  "collect env normalized t0 [] acc = acc"
| "collect env normalized t0 ((s, provider) # rest) (results, errors, w) =
     (let (t, w1) = Date_now env w;
          elapsed = t - t0
      in case s of
           Fulfilled val \<Rightarrow>
             (let (_, w2) = metrics_record env
                    \<lparr>m_provider = p_name provider, m_query = Some (q_q normalized),
                     m_cacheHit = False, m_results = Some (int (length val)),
                     m_elapsedMs = Some elapsed, m_error = None\<rparr> w1
              in collect env normalized t0 rest (results @ val, errors, w2))
         | Rejected err \<Rightarrow>
             (let provErr = (if isProviderError err then as_ProviderError err
                             else \<lparr>pe_provider = Enumerable (p_name provider),
                                   pe_message = Enumerable (rsn_string err),
                                   pe_code = Enumerable UNKNOWN\<rparr>);
                  (_, w2) = metrics_record env
                    \<lparr>m_provider = p_name provider, m_query = Some (q_q normalized),
                     m_cacheHit = False, m_results = None,
                     m_elapsedMs = None, m_error = prop_value (pe_message provErr)\<rparr> w1
              in collect env normalized t0 rest (results, errors @ [provErr], w2)))"

text \<open>
  \<^verbatim>\<open>normalized.providers.map((name) => this.providers[name]).filter((p) => p !== undefined)\<close>
\<close>

definition activeProviders :: "Engine \<Rightarrow> SearchQuery \<Rightarrow> Provider list" where
  "activeProviders eng normalized = List.map_filter (eng_providers eng) (q_providers normalized)"

definition search :: "Env \<Rightarrow> Engine \<Rightarrow> SearchQuery \<Rightarrow> World \<Rightarrow> SearchResponse \<times> World" where
  "search env eng query w0 =
     (let normalized = normalizeQuery query;
          key = hashQuery normalized;
          (t0, w1) = Date_now env w0;
          (got, w2) = cache_get env key w1;
          cached = (case got of Inl _ \<Rightarrow> None | Inr c \<Rightarrow> c)
      in case cached of
           Some c \<Rightarrow>
             (let w3 = (case q_providers normalized of
                          [] \<Rightarrow> w2
                        | firstProvider # _ \<Rightarrow>
                            snd (metrics_record env
                              \<lparr>m_provider = firstProvider, m_query = Some (q_q normalized),
                               m_cacheHit = True, m_results = Some (int (length (resp_results c))),
                               m_elapsedMs = Some 0, m_error = None\<rparr> w2));
                  (t1, w4) = Date_now env w3
              in (c\<lparr>resp_cached := True, resp_elapsed_ms := t1 - t0,
                    resp_search_elapsed_ms := Some (resp_elapsed_ms c)\<rparr>, w4))
         | None \<Rightarrow>
             (let active = activeProviders eng normalized;
                  settlements = map (\<lambda>p. p_search p normalized) active;
                  w3 = w2\<lparr>calls := calls w2 @ map (\<lambda>p. (p_name p, normalized)) active\<rparr>;
                  (results, errors, w4) =
                    collect env normalized t0 (zip settlements active) ([], [], w3);
                  merged = aggregate (arith env) results (q_limit normalized);
                  (t1, w5) = Date_now env w4;
                  response = \<lparr>resp_query = normalized, resp_results = merged,
                              resp_total = int (length merged), resp_cached = False,
                              resp_elapsed_ms = t1 - t0, resp_errors = errors,
                              resp_search_elapsed_ms = None\<rparr>;
                  (_, w6) = cache_set env key response
                              (case q_cacheTTL query of Some ttl \<Rightarrow> ttl | None \<Rightarrow> eng_defaultTTL eng)
                              w5
              in (response, w6)))"

section \<open>Reference definitions and example inputs\<close>

text \<open>
  The deduplication as the specification words it: the element at position \<open>i\<close> is kept
  exactly when its url is not the url of an earlier element.
\<close>

definition first_occurrences :: "SearchResult list \<Rightarrow> SearchResult list" where
  "first_occurrences rs =
     map (\<lambda>i. rs ! i)
       (filter (\<lambda>i. res_url (rs ! i) \<notin> res_url ` set (take i rs)) [0..<length rs])"

text \<open>
  An arithmetic that agrees with double precision on the operations of the examples: for
  \<^verbatim>\<open>Math.log\<close> of 11, 101 and 10001 the doubles that a C library returns, for the product of
  the double written \<^verbatim>\<open>0.9\<close> with the first of them the nearest double, and the exact
  product elsewhere (elsewhere the examples multiply by powers of two only, which is exact
  in double precision).
\<close>

definition dbl_0_9 :: real where
  "dbl_0_9 = 8106479329266893 / 9007199254740992"

definition libm_float :: Float64 where
  "libm_float =
     \<lparr>f64_mul = (\<lambda>x y. if x = 8106479329266893 / 9007199254740992
                           \<and> y = 1349895032131027 / 562949953421312
                        then 4859622115671697 / 2251799813685248 else x * y),
      Math_log = (\<lambda>x. if x = 11 then 1349895032131027 / 562949953421312
                      else if x = 101 then 5196163759979057 / 1125899906842624
                      else if x = 10001 then 2592508487789601 / 281474976710656
                      else ln x)\<rparr>"

text \<open>
  An approximation within a tenth of the exact value: the accuracy asked of the platform
  when the example of the ranking is compared with exact arithmetic.
\<close>

definition within_tenth :: "real \<Rightarrow> real \<Rightarrow> bool" where
  "within_tenth approx exact \<longleftrightarrow> \<bar>approx - exact\<bar> \<le> \<bar>exact\<bar> / 10"

text \<open>A result as the tests of the engine build it (\<^verbatim>\<open>makeResult\<close> in tests/core/engine.test.ts).\<close>

definition example_result :: "string \<Rightarrow> ProviderName \<Rightarrow> real \<Rightarrow> nat \<Rightarrow> SearchResult" where
  "example_result u p sc st =
     \<lparr>res_url = u, res_rawUrl = u, res_repo = ''owner/repo'', res_path = ''file.ts'',
      res_lines = (1, 3), res_snippet = ''code'', res_language = ''ts'', res_stars = st,
      res_provider = p, res_score = sc\<rparr>"

text \<open>
  A query with an explicitly undefined filter and the providers out of order, and two
  queries that differ only in the order in which the caller wrote the filter keys.
\<close>

definition example_query :: SearchQuery where
  "example_query =
     \<lparr>q_q = ''foo'', q_providers = [Sourcegraph, Github],
      q_filters = [(Language, Str ''ts''), (Org, Undefined), (Repo, Str ''a/b'')],
      q_limit = 10, q_cacheTTL = None\<rparr>"

definition query_lang_repo :: SearchQuery where
  "query_lang_repo =
     \<lparr>q_q = ''foo'', q_providers = [Github, Sourcegraph],
      q_filters = [(Language, Str ''ts''), (Repo, Str ''a/b'')],
      q_limit = 10, q_cacheTTL = None\<rparr>"

definition query_repo_lang :: SearchQuery where
  "query_repo_lang =
     \<lparr>q_q = ''foo'', q_providers = [Github, Sourcegraph],
      q_filters = [(Repo, Str ''a/b''), (Language, Str ''ts'')],
      q_limit = 10, q_cacheTTL = None\<rparr>"

text \<open>
  The sorted samples that \<^verbatim>\<open>stats\<close> hands to \<^verbatim>\<open>percentile\<close> for one provider, and the index of
  nearest-rank estimation as the specification words it: \<open>\<lceil>n \<times> p\<rceil> - 1\<close>, clamped to
  \<open>[0, n - 1]\<close>.
\<close>

definition group_latencies :: "SqlGroup \<Rightarrow> int list" where
  "group_latencies r = (case g_latencies r of None \<Rightarrow> [] | Some ls \<Rightarrow> sort ls)"

definition nearest_rank_index :: "nat \<Rightarrow> real \<Rightarrow> nat" where
  "nearest_rank_index n p = nat (max 0 (min (\<lceil>real n * p\<rceil> - 1) (int n - 1)))"

text \<open>
  A stored response as tests/cache/sqlite.test.ts builds it, a world with empty tables, and
  an environment whose clock advances by 250 ms per reading and whose database never fails.
\<close>

definition example_response :: SearchResponse where
  "example_response =
     \<lparr>resp_query = \<lparr>q_q = ''hello'', q_providers = [Github], q_filters = [], q_limit = 10,
                     q_cacheTTL = None\<rparr>,
      resp_results = [], resp_total = 0, resp_cached = False, resp_elapsed_ms = 100,
      resp_errors = [], resp_search_elapsed_ms = None\<rparr>"

definition empty_world :: World where
  "empty_world = \<lparr>cache_tbl = Map.empty, metrics_tbl = [], calls = [], tick = 0\<rparr>"

definition steady_env :: Env where
  "steady_env =
     \<lparr>clk = (\<lambda>i. 1700000000000 + 250 * int i), db_fault = (\<lambda>i. False), arith = libm_float\<rparr>"

text \<open>
  What the loop over the settlements accumulates, written as functions of the settlements:
  the error object pushed for a rejection, the concatenated values of the fulfilled
  promises, and the errors of the rejected ones, both in the order of the active providers.
\<close>

definition provider_error :: "Provider \<Rightarrow> Reason \<Rightarrow> ProviderError" where
  "provider_error p err =
     (if isProviderError err then as_ProviderError err
      else \<lparr>pe_provider = Enumerable (p_name p), pe_message = Enumerable (rsn_string err),
            pe_code = Enumerable UNKNOWN\<rparr>)"

fun settled_results :: "(Settlement \<times> Provider) list \<Rightarrow> SearchResult list" where
  "settled_results [] = []"
| "settled_results ((Fulfilled val, p) # rest) = val @ settled_results rest"
| "settled_results ((Rejected err, p) # rest) = settled_results rest"

fun settled_errors :: "(Settlement \<times> Provider) list \<Rightarrow> ProviderError list" where
  "settled_errors [] = []"
| "settled_errors ((Fulfilled val, p) # rest) = settled_errors rest"
| "settled_errors ((Rejected err, p) # rest) = provider_error p err # settled_errors rest"

text \<open>
  The settlements of the fan-out, paired with their providers, and the TTL of the cache
  write, \<^verbatim>\<open>query.cacheTTL ?? this.defaultTTL\<close>.
\<close>

definition settlements_of :: "Engine \<Rightarrow> SearchQuery \<Rightarrow> (Settlement \<times> Provider) list" where
  "settlements_of eng normalized =
     zip (map (\<lambda>p. p_search p normalized) (activeProviders eng normalized))
         (activeProviders eng normalized)"

definition cache_ttl :: "Engine \<Rightarrow> SearchQuery \<Rightarrow> int" where
  "cache_ttl eng query = (case q_cacheTTL query of Some ttl \<Rightarrow> ttl | None \<Rightarrow> eng_defaultTTL eng)"


definition ok_result :: SearchResult where
  "ok_result = example_result ''https://github.com/ok'' Github 1 100"

definition good_provider :: Provider where
  "good_provider = \<lparr>p_name = Github, p_search = (\<lambda>query. Fulfilled [ok_result])\<rparr>"

definition timeout_reason :: Reason where
  "timeout_reason =
     \<lparr>rsn_is_object = True, rsn_provider = Enumerable Sourcegraph,
      rsn_message = Hidden ''timeout'', rsn_code = Enumerable TIMEOUT,
      rsn_string = ''Error: timeout''\<rparr>"

definition timeout_provider :: Provider where
  "timeout_provider = \<lparr>p_name = Sourcegraph, p_search = (\<lambda>query. Rejected timeout_reason)\<rparr>"

definition two_provider_engine :: Engine where
  "two_provider_engine =
     \<lparr>eng_providers = [Github \<mapsto> good_provider, Sourcegraph \<mapsto> timeout_provider],
      eng_defaultTTL = 3600\<rparr>"

definition github_engine :: Engine where
  "github_engine = \<lparr>eng_providers = [Github \<mapsto> good_provider], eng_defaultTTL = 3600\<rparr>"

definition two_provider_query :: SearchQuery where
  "two_provider_query =
     \<lparr>q_q = ''foo'', q_providers = [Github, Sourcegraph], q_filters = [], q_limit = 10,
      q_cacheTTL = None\<rparr>"

definition github_query :: SearchQuery where
  "github_query =
     \<lparr>q_q = ''bar'', q_providers = [Github], q_filters = [], q_limit = 5, q_cacheTTL = None\<rparr>"

definition no_provider_query :: SearchQuery where
  "no_provider_query =
     \<lparr>q_q = ''foo'', q_providers = [], q_filters = [], q_limit = 10, q_cacheTTL = None\<rparr>"

definition cached_world :: World where
  "cached_world =
     \<lparr>cache_tbl = [hashQuery (normalizeQuery no_provider_query) \<mapsto>
                     \<lparr>row_value = example_response, row_created_at = 1700000000,
                      row_expires_at = 1700003600\<rparr>],
      metrics_tbl = [], calls = [], tick = 0\<rparr>"

section \<open>Properties of aggregate\<close>

lemma js_insort_insort_key:
  "js_insort (\<lambda>a b. snd b - snd a) x ys = insort_key (\<lambda>p. - snd p) x ys"
  by (induction ys) auto

lemma js_sort_sort_key:
  "js_sort (\<lambda>a b. snd b - snd a) xs = sort_key (\<lambda>p. - snd p) xs"
  by (induction xs) (auto simp: js_sort_def js_insort_insort_key sort_key_def)

lemma dedup_index:
  "dedup seen rs =
     map (\<lambda>i. rs ! i)
       (filter (\<lambda>i. res_url (rs ! i) \<notin> seen \<and> (\<forall>j<i. res_url (rs ! j) \<noteq> res_url (rs ! i)))
          [0..<length rs])"
proof (induction rs arbitrary: seen)
  case Nil
  show ?case by simp
next
  case (Cons r rs)
  have upt: "[0..<length (r # rs)] = 0 # map Suc [0..<length rs]"
    by (simp add: upt_conv_Cons map_Suc_upt del: upt_Suc)
  have all: "\<And>i P. (\<forall>j<Suc i. P j) = (P 0 \<and> (\<forall>j<i. P (Suc j)))"
    by (simp add: All_less_Suc2)
  show ?case
  proof (cases "res_url r \<in> seen")
    case True
    have "filter (\<lambda>i. res_url (rs ! i) \<notin> seen \<and> (\<forall>j<i. res_url (rs ! j) \<noteq> res_url (rs ! i))) [0..<length rs]
        = filter (\<lambda>i. res_url (rs ! i) \<notin> seen \<and> res_url r \<noteq> res_url (rs ! i) \<and>
                    (\<forall>j<i. res_url (rs ! j) \<noteq> res_url (rs ! i))) [0..<length rs]"
      using True by (intro filter_cong) auto
    then show ?thesis
      unfolding upt using True by (simp add: Cons.IH filter_map comp_def all)
  next
    case False
    have "filter (\<lambda>i. res_url (rs ! i) \<notin> insert (res_url r) seen \<and>
                    (\<forall>j<i. res_url (rs ! j) \<noteq> res_url (rs ! i))) [0..<length rs]
        = filter (\<lambda>i. res_url (rs ! i) \<notin> seen \<and> res_url r \<noteq> res_url (rs ! i) \<and>
                    (\<forall>j<i. res_url (rs ! j) \<noteq> res_url (rs ! i))) [0..<length rs]"
      by (intro filter_cong) auto
    then show ?thesis
      unfolding upt using False by (simp add: Cons.IH filter_map comp_def all)
  qed
qed

lemma earlier_urls:
  "i < length rs \<Longrightarrow>
     (\<forall>j<i. res_url (rs ! j) \<noteq> res_url (rs ! i)) \<longleftrightarrow> res_url (rs ! i) \<notin> res_url ` set (take i rs)"
proof -
  assume i: "i < length rs"
  have eq: "res_url ` set (take i rs) = (\<lambda>j. res_url (rs ! j)) ` {0..<i}"
    using i by (simp add: nth_image[symmetric] image_image)
  show ?thesis
  proof
    assume a: "\<forall>j<i. res_url (rs ! j) \<noteq> res_url (rs ! i)"
    show "res_url (rs ! i) \<notin> res_url ` set (take i rs)"
    proof
      assume "res_url (rs ! i) \<in> res_url ` set (take i rs)"
      then obtain j where "j < i" "res_url (rs ! i) = res_url (rs ! j)"
        unfolding eq by auto
      with a show False by auto
    qed
  next
    assume n: "res_url (rs ! i) \<notin> res_url ` set (take i rs)"
    show "\<forall>j<i. res_url (rs ! j) \<noteq> res_url (rs ! i)"
    proof (intro allI impI notI)
      fix j assume "j < i" "res_url (rs ! j) = res_url (rs ! i)"
      then have "res_url (rs ! i) \<in> (\<lambda>j. res_url (rs ! j)) ` {0..<i}"
        by (metis atLeastLessThan_iff imageI le0)
      with n show False unfolding eq by simp
    qed
  qed
qed

lemma unique_first: "unique_results rs = first_occurrences rs"
proof -
  have "filter (\<lambda>i. res_url (rs ! i) \<notin> {} \<and> (\<forall>j<i. res_url (rs ! j) \<noteq> res_url (rs ! i))) [0..<length rs]
      = filter (\<lambda>i. res_url (rs ! i) \<notin> res_url ` set (take i rs)) [0..<length rs]"
    by (rule filter_cong) (simp_all add: earlier_urls)
  then show ?thesis
    by (simp only: unique_results_def first_occurrences_def dedup_index)
qed

lemma dedup_subset: "set (dedup seen rs) \<subseteq> set rs"
  by (induction rs arbitrary: seen) auto

lemma dedup_urls: "res_url ` set (dedup seen rs) = res_url ` set rs - seen"
  by (induction rs arbitrary: seen) auto

lemma dedup_distinct: "distinct (map res_url (dedup seen rs))"
  by (induction rs arbitrary: seen) (auto simp: dedup_urls)

lemma dedup_find:
  "r \<in> set (dedup seen rs) \<Longrightarrow> find (\<lambda>x. res_url x = res_url r) rs = Some r"
proof (induction rs arbitrary: seen)
  case Nil then show ?case by simp
next
  case (Cons a rs)
  show ?case
  proof (cases "res_url a = res_url r")
    case True
    have "r \<notin> set (dedup (insert (res_url a) seen) rs)"
      using dedup_urls[of "insert (res_url a) seen" rs] True by auto
    moreover have "res_url a \<in> seen \<Longrightarrow> r \<notin> set (dedup seen rs)"
      using dedup_urls[of seen rs] True by auto
    ultimately show ?thesis using Cons.prems True by (auto split: if_splits)
  next
    case False
    then show ?thesis using Cons by (auto split: if_splits)
  qed
qed


lemma insort_key_pairs:
  "insort_key (\<lambda>p. - snd p) (x, f x) (map (\<lambda>r. (r, f r)) ys)
     = map (\<lambda>r. (r, f r)) (insort_key (\<lambda>r. - f r) x ys)"
  by (induction ys) auto

lemma sort_key_pairs:
  "sort_key (\<lambda>p. - snd p) (map (\<lambda>r. (r, f r)) xs)
     = map (\<lambda>r. (r, (f r :: real))) (sort_key (\<lambda>r. - f r) xs)"
  by (induction xs) (auto simp: insort_key_pairs)

lemma ranking_sort_key:
  "map fst (ranked_results fl rs) = sort_key (\<lambda>r. - rank fl r) (unique_results rs)"
  by (simp add: ranked_results_def js_sort_sort_key sort_key_pairs comp_def)

lemma ranking_descending:
  "sorted_wrt (\<lambda>a b. rank fl b \<le> rank fl a) (map fst (ranked_results fl rs))"
proof -
  have "sorted (map (\<lambda>r. - rank fl r) (sort_key (\<lambda>r. - rank fl r) (unique_results rs)))"
    by (rule sorted_sort_key)
  then show ?thesis
    by (simp add: ranking_sort_key sorted_map)
qed

lemma ranking_stable:
  "filter (\<lambda>r. rank fl r = c) (map fst (ranked_results fl rs))
     = filter (\<lambda>r. rank fl r = c) (unique_results rs)"
  using sort_key_stable[of "\<lambda>r. - rank fl r" "- c" "unique_results rs"]
  by (simp add: ranking_sort_key)

lemma ranking_set: "set (map fst (ranked_results fl rs)) = set (unique_results rs)"
  by (simp only: ranking_sort_key set_sort)

lemma aggregate_slice: "aggregate fl rs limit = slice0 (map fst (ranked_results fl rs)) limit"
  by (simp add: aggregate_def slice0_def take_map)

lemma aggregate_take: "\<exists>m. aggregate fl rs limit = take m (map fst (ranked_results fl rs))"
  by (auto simp: aggregate_slice slice0_def)

lemma length_unique: "length (unique_results rs) = card (res_url ` set rs)"
proof -
  have "length (unique_results rs) = length (map res_url (unique_results rs))" by simp
  also have "\<dots> = card (set (map res_url (unique_results rs)))"
    by (rule distinct_card[symmetric]) (simp add: unique_results_def dedup_distinct)
  also have "\<dots> = card (res_url ` set rs)"
    by (simp add: unique_results_def dedup_urls)
  finally show ?thesis .
qed

lemma length_ranking: "length (ranked_results fl rs) = card (res_url ` set rs)"
proof -
  have "length (ranked_results fl rs) = length (map fst (ranked_results fl rs))" by simp
  also have "\<dots> = length (unique_results rs)" by (simp only: ranking_sort_key length_sort)
  finally show ?thesis by (simp add: length_unique)
qed

lemma length_ranking_le: "length (ranked_results fl rs) \<le> length rs"
proof -
  have "card (res_url ` set rs) \<le> card (set rs)" by (rule card_image_le) simp
  also have "\<dots> \<le> length rs" by (rule card_length)
  finally show ?thesis by (simp add: length_ranking)
qed

lemma aggregate_all:
  "int (length rs) \<le> limit \<Longrightarrow> aggregate fl rs limit = map fst (ranked_results fl rs)"
  using length_ranking_le[of fl rs] by (simp add: aggregate_slice slice0_def)

lemma filter_take_prefix:
  "filter P (take m xs) = take (length (filter P (take m xs))) (filter P xs)"
proof -
  have "filter P xs = filter P (take m xs) @ filter P (drop m xs)"
    by (metis append_take_drop_id filter_append)
  then show ?thesis by simp
qed

lemma aggregate_stable:
  "filter (\<lambda>r. rank fl r = c) (aggregate fl rs limit)
     = take (length (filter (\<lambda>r. rank fl r = c) (aggregate fl rs limit)))
         (filter (\<lambda>r. rank fl r = c) (unique_results rs))"
proof -
  obtain m where m: "aggregate fl rs limit = take m (map fst (ranked_results fl rs))"
    using aggregate_take by blast
  show ?thesis
    unfolding m ranking_stable[of fl c rs, symmetric] by (rule filter_take_prefix)
qed

lemma aggregate_pair:
  "res_url a \<noteq> res_url b \<Longrightarrow>
     aggregate fl [a, b] 2 = (if rank fl a < rank fl b then [b, a] else [a, b])"
  by (simp add: aggregate_def ranked_results_def unique_results_def js_sort_def slice0_def)

lemma aggregate_subset: "set (aggregate fl rs limit) \<subseteq> set (unique_results rs)"
proof -
  have "set (slice0 (map fst (ranked_results fl rs)) limit) \<subseteq> set (map fst (ranked_results fl rs))"
    by (auto simp: slice0_def dest: in_set_takeD)
  then show ?thesis
    by (simp add: aggregate_slice ranking_sort_key)
qed

lemma ranking_distinct_urls: "distinct (map res_url (map fst (ranked_results fl rs)))"
proof -
  have d: "distinct (map res_url (unique_results rs))"
    by (simp add: unique_results_def dedup_distinct)
  then show ?thesis
    by (simp add: ranking_sort_key distinct_map)
qed

lemma aggregate_distinct_urls: "distinct (map res_url (aggregate fl rs limit))"
proof -
  have "distinct (take n (map res_url (map fst (ranked_results fl rs))))" for n
    by (rule distinct_take) (rule ranking_distinct_urls)
  then show ?thesis
    by (simp add: aggregate_slice slice0_def take_map)
qed

lemma aggregate_descending:
  "sorted_wrt (\<lambda>a b. rank fl b \<le> rank fl a) (aggregate fl rs limit)"
  by (simp add: aggregate_slice slice0_def sorted_wrt_take ranking_descending)

text \<open>
  Claim C4. For every input sequence, \<open>aggregate\<close> deduplicates by url and keeps exactly the
  first occurrence in input order: the deduplication step returns the elements whose url
  does not occur earlier in the input; every entry of the output is such an element,
  unchanged (it is the first element of the input with its url, whatever the provider, score
  or stars of the later ones), no url occurs twice in the output, and with a limit of at
  least the input length every first occurrence is in the output. This holds whatever the
  double-precision arithmetic \<open>fl\<close> of the platform computes.
\<close>

theorem aggregate_keeps_first_occurrence:
  "unique_results rs = first_occurrences rs
   \<and> set (aggregate fl rs limit) \<subseteq> set (first_occurrences rs)
   \<and> distinct (map res_url (aggregate fl rs limit))
   \<and> (\<forall>r \<in> set (aggregate fl rs limit). find (\<lambda>x. res_url x = res_url r) rs = Some r)
   \<and> (int (length rs) \<le> limit \<longrightarrow> set (aggregate fl rs limit) = set (first_occurrences rs))"
proof (intro conjI ballI impI)
  show "unique_results rs = first_occurrences rs" by (rule unique_first)
  show "set (aggregate fl rs limit) \<subseteq> set (first_occurrences rs)"
    using aggregate_subset[of fl rs limit] by (simp add: unique_first)
  show "distinct (map res_url (aggregate fl rs limit))" by (rule aggregate_distinct_urls)
next
  fix r assume "r \<in> set (aggregate fl rs limit)"
  then have "r \<in> set (dedup {} rs)"
    using aggregate_subset[of fl rs limit] by (auto simp: unique_results_def)
  then show "find (\<lambda>x. res_url x = res_url r) rs = Some r" by (rule dedup_find)
next
  assume "int (length rs) \<le> limit"
  then show "set (aggregate fl rs limit) = set (first_occurrences rs)"
    by (simp add: aggregate_all ranking_sort_key unique_first)
qed

text \<open>
  Witness for C4: the second result repeats the url of the first, from another provider
  and with a higher score; it is dropped.
\<close>

theorem aggregate_keeps_first_occurrence_witness:
  "set (aggregate libm_float
          [example_result ''u1'' Github (1/2) 0,
           example_result ''u1'' Sourcegraph 1 0,
           example_result ''u2'' Sourcegraph (1/4) 0] 3)
     = {example_result ''u1'' Github (1/2) 0, example_result ''u2'' Sourcegraph (1/4) 0}
   \<and> find (\<lambda>x. res_url x = ''u1'')
        [example_result ''u1'' Github (1/2) 0,
         example_result ''u1'' Sourcegraph 1 0,
         example_result ''u2'' Sourcegraph (1/4) 0] = Some (example_result ''u1'' Github (1/2) 0)"
  using aggregate_keeps_first_occurrence[of
      "[example_result ''u1'' Github (1/2) 0,
        example_result ''u1'' Sourcegraph 1 0,
        example_result ''u2'' Sourcegraph (1/4) 0]" libm_float 3]
  by (simp add: first_occurrences_def example_result_def upt_rec[of 0] upt_rec[of 1] upt_rec[of 2]
        numeral_3_eq_3)

subsection \<open>The example of the ranking in exact and in double-precision arithmetic\<close>

lemma ln_example: "(9/10) * ln (11::real) < (1/2) * ln 10001"
proof -
  have a: "ln ((11::real) ^ 9) = real 9 * ln 11"
    by (rule ln_realpow)
  have b: "ln ((10001::real) ^ 5) = real 5 * ln 10001"
    by (rule ln_realpow)
  have "ln ((11::real) ^ 9) < ln (10001 ^ 5)"
    by (subst ln_less_cancel_iff) simp_all
  then have "real 9 * ln (11::real) < real 5 * ln 10001"
    unfolding a b .
  then show ?thesis by simp
qed

lemma ln_2_lower: "21/32 \<le> ln (2::real)"
proof -
  have "exp (1/32 :: real) \<le> 1 + 1/32 + (1/32)\<^sup>2"
    by (rule exp_bound) simp_all
  then have "exp (1/32 :: real) ^ 21 \<le> (1 + 1/32 + (1/32)\<^sup>2) ^ 21"
    by (intro power_mono) simp_all
  also have "\<dots> \<le> (2::real)"
    by (simp add: power2_eq_square power_divide)
  finally have "exp (real 21 * (1/32)) \<le> (2::real)"
    by (simp only: exp_of_nat_mult)
  then have e: "exp (21/32) \<le> (2::real)" by simp
  have "21/32 \<le> ln (2::real) \<longleftrightarrow> exp (21/32) \<le> (2::real)"
    by (rule ln_ge_iff) simp
  with e show ?thesis by blast
qed

lemma ln_2_upper: "ln (2::real) \<le> 3/4"
proof -
  have "(1 + (3/4) / real 8) ^ 8 \<le> exp (3/4 :: real)"
    by (rule exp_ge_one_plus_x_over_n_power_n) simp_all
  moreover have "(2::real) \<le> (1 + (3/4) / real 8) ^ 8" by (simp add: power_divide)
  ultimately have "(2::real) \<le> exp (3/4)" by linarith
  then have "ln (2::real) \<le> ln (exp (3/4))"
    by (subst ln_le_cancel_iff) simp_all
  then show ?thesis by simp
qed

lemma ln_11_bounds: "35/16 \<le> ln (11::real)" "ln (11::real) \<le> 21/8"
proof -
  have p3: "ln ((11::real) ^ 3) = real 3 * ln 11" by (rule ln_realpow)
  have p2: "ln ((11::real) ^ 2) = real 2 * ln 11" by (rule ln_realpow)
  have q10: "ln ((2::real) ^ 10) = real 10 * ln 2" by (rule ln_realpow)
  have q7: "ln ((2::real) ^ 7) = real 7 * ln 2" by (rule ln_realpow)
  have "ln ((2::real) ^ 10) \<le> ln (11 ^ 3)"
    by (subst ln_le_cancel_iff) simp_all
  then have "real 10 * ln (2::real) \<le> real 3 * ln 11" unfolding p3 q10 .
  then show "35/16 \<le> ln (11::real)" using ln_2_lower by simp
  have "ln ((11::real) ^ 2) \<le> ln (2 ^ 7)"
    by (subst ln_le_cancel_iff) simp_all
  then have "real 2 * ln (11::real) \<le> real 7 * ln 2" unfolding p2 q7 .
  then show "ln (11::real) \<le> 21/8" using ln_2_upper by simp
qed

lemma ln_10001_bounds: "273/32 \<le> ln (10001::real)" "ln (10001::real) \<le> 10"
proof -
  have p3: "ln ((10001::real) ^ 3) = real 3 * ln 10001" by (rule ln_realpow)
  have q13: "ln ((2::real) ^ 13) = real 13 * ln 2" by (rule ln_realpow)
  have q40: "ln ((2::real) ^ 40) = real 40 * ln 2" by (rule ln_realpow)
  have "ln ((2::real) ^ 13) \<le> ln 10001"
    by (subst ln_le_cancel_iff) simp_all
  then have "real 13 * ln (2::real) \<le> ln 10001" unfolding q13 .
  then show "273/32 \<le> ln (10001::real)" using ln_2_lower by simp
  have "ln ((10001::real) ^ 3) \<le> ln (2 ^ 40)"
    by (subst ln_le_cancel_iff) simp_all
  then have "real 3 * ln (10001::real) \<le> real 40 * ln 2" unfolding p3 q40 .
  then show "ln (10001::real) \<le> 10" using ln_2_upper by simp
qed

lemma within_tenth_bounds:
  "0 \<le> exact \<Longrightarrow> within_tenth approx exact \<Longrightarrow>
     9/10 * exact \<le> approx \<and> approx \<le> 11/10 * exact"
  unfolding within_tenth_def by linarith

lemma within_tenth_intro:
  "0 \<le> exact \<Longrightarrow> 9/10 * exact \<le> approx \<Longrightarrow> approx \<le> 11/10 * exact \<Longrightarrow>
     within_tenth approx exact"
  unfolding within_tenth_def by linarith

text \<open>
  The doubles of the example arithmetic are within a tenth of the exact values. The rounded
  product of the double \<^verbatim>\<open>0.9\<close> with the double logarithm of 11 is not the exact product.
\<close>

lemma libm_float_accurate:
  "within_tenth (Math_log libm_float 11) (ln 11)"
  "within_tenth (Math_log libm_float 10001) (ln 10001)"
  "within_tenth (f64_mul libm_float dbl_0_9 (Math_log libm_float 11))
     (dbl_0_9 * Math_log libm_float 11)"
  "within_tenth (f64_mul libm_float (1/2) (Math_log libm_float 10001))
     (1/2 * Math_log libm_float 10001)"
proof -
  have l11: "Math_log libm_float 11 = 1349895032131027 / 562949953421312"
    and l10001: "Math_log libm_float 10001 = 2592508487789601 / 281474976710656"
    by (simp_all add: libm_float_def)
  show "within_tenth (Math_log libm_float 11) (ln 11)"
    unfolding l11 using ln_11_bounds by (intro within_tenth_intro) linarith+
  show "within_tenth (Math_log libm_float 10001) (ln 10001)"
    unfolding l10001 using ln_10001_bounds by (intro within_tenth_intro) linarith+
  show "within_tenth (f64_mul libm_float dbl_0_9 (Math_log libm_float 11))
     (dbl_0_9 * Math_log libm_float 11)"
    by (simp add: within_tenth_def libm_float_def dbl_0_9_def)
  show "within_tenth (f64_mul libm_float (1/2) (Math_log libm_float 10001))
     (1/2 * Math_log libm_float 10001)"
    by (simp add: within_tenth_def libm_float_def)
qed

lemma libm_float_rounds:
  "f64_mul libm_float dbl_0_9 (Math_log libm_float 11) \<noteq> dbl_0_9 * Math_log libm_float 11"
  by (simp add: libm_float_def dbl_0_9_def)

lemma accurate_example:
  assumes l11: "within_tenth (Math_log fl 11) (ln 11)"
    and l10001: "within_tenth (Math_log fl 10001) (ln 10001)"
    and ma: "within_tenth (f64_mul fl dbl_0_9 (Math_log fl 11)) (dbl_0_9 * Math_log fl 11)"
    and mb: "within_tenth (f64_mul fl (1/2) (Math_log fl 10001)) (1/2 * Math_log fl 10001)"
  shows "f64_mul fl dbl_0_9 (Math_log fl 11) < f64_mul fl (1/2) (Math_log fl 10001)"
proof -
  have p3: "ln ((11::real) ^ 3) = real 3 * ln 11" by (rule ln_realpow)
  have "ln ((11::real) ^ 3) \<le> ln 10001"
    by (subst ln_le_cancel_iff) simp_all
  then have r: "3 * ln (11::real) \<le> ln 10001" unfolding p3 by simp
  have pos: "0 < ln (11::real)" by simp
  have a: "9/10 * ln 11 \<le> Math_log fl 11 \<and> Math_log fl 11 \<le> 11/10 * ln 11"
    using pos l11 by (intro within_tenth_bounds) simp_all
  have b: "9/10 * ln 10001 \<le> Math_log fl 10001 \<and> Math_log fl 10001 \<le> 11/10 * ln 10001"
    using pos r l10001 by (intro within_tenth_bounds) simp_all
  have d: "0 \<le> dbl_0_9" "dbl_0_9 \<le> 91/100" by (simp_all add: dbl_0_9_def)
  have a0: "0 \<le> Math_log fl 11" using a pos by linarith
  have b0: "0 \<le> Math_log fl 10001" using b r pos by linarith
  have a2: "dbl_0_9 * Math_log fl 11 \<le> 91/100 * Math_log fl 11"
    using d a0 by (intro mult_right_mono) simp_all
  have a3: "0 \<le> dbl_0_9 * Math_log fl 11" using d a0 by simp
  have ua: "9/10 * (dbl_0_9 * Math_log fl 11) \<le> f64_mul fl dbl_0_9 (Math_log fl 11)
      \<and> f64_mul fl dbl_0_9 (Math_log fl 11) \<le> 11/10 * (dbl_0_9 * Math_log fl 11)"
    using a3 ma by (rule within_tenth_bounds)
  have b3: "0 \<le> 1/2 * Math_log fl 10001" using b0 by simp
  have lb: "9/10 * (1/2 * Math_log fl 10001) \<le> f64_mul fl (1/2) (Math_log fl 10001)
      \<and> f64_mul fl (1/2) (Math_log fl 10001) \<le> 11/10 * (1/2 * Math_log fl 10001)"
    using b3 mb by (rule within_tenth_bounds)
  show ?thesis using ua lb a b a2 r pos by linarith
qed

text \<open>
  Claim C5. \<open>aggregate\<close> orders the surviving results descending by the rank score, which
  is the double-precision product of the score with \<^verbatim>\<open>Math.log(stars + 1)\<close>, and results of
  equal rank score keep the relative order they have after deduplication: for every value
  \<open>c\<close>, the results of rank score \<open>c\<close> in the output are an initial segment of the results of
  rank score \<open>c\<close> in the deduplicated input, and all of them when the limit does not cut the
  output. For two results with different urls, \<open>b\<close> comes before \<open>a\<close> exactly when the rank
  score of \<open>a\<close> is less than that of \<open>b\<close>; in particular B (score 0.5, stars 10000) comes
  before A (score 0.9, stars 10) exactly when the product computed for A is less than the
  one computed for B. That is so on every platform whose logarithm and product are within
  a tenth of the exact ones at these arguments, and in exact arithmetic
  \<open>0.9 \<times> ln 11 < 0.5 \<times> ln 10001\<close>.
\<close>

theorem aggregate_rank_order_stable:
  "(let score = (\<lambda>r. f64_mul fl (res_score r) (Math_log fl (real (res_stars r) + 1))) in
      sorted_wrt (\<lambda>x y. score y \<le> score x) (aggregate fl rs limit)
      \<and> (\<forall>c. filter (\<lambda>r. score r = c) (aggregate fl rs limit)
               = take (length (filter (\<lambda>r. score r = c) (aggregate fl rs limit)))
                   (filter (\<lambda>r. score r = c) (first_occurrences rs)))
      \<and> (int (length rs) \<le> limit \<longrightarrow>
           (\<forall>c. filter (\<lambda>r. score r = c) (aggregate fl rs limit)
                  = filter (\<lambda>r. score r = c) (first_occurrences rs)))
      \<and> (res_url a \<noteq> res_url b \<longrightarrow>
           aggregate fl [a, b] 2 = (if score a < score b then [b, a] else [a, b]))
      \<and> (res_url a \<noteq> res_url b \<and> res_score a = dbl_0_9 \<and> res_stars a = 10
           \<and> res_score b = 1/2 \<and> res_stars b = 10000 \<longrightarrow>
           (aggregate fl [a, b] 2 = [b, a] \<longleftrightarrow>
              f64_mul fl dbl_0_9 (Math_log fl 11) < f64_mul fl (1/2) (Math_log fl 10001)))
      \<and> (within_tenth (Math_log fl 11) (ln 11) \<and> within_tenth (Math_log fl 10001) (ln 10001)
           \<and> within_tenth (f64_mul fl dbl_0_9 (Math_log fl 11)) (dbl_0_9 * Math_log fl 11)
           \<and> within_tenth (f64_mul fl (1/2) (Math_log fl 10001)) (1/2 * Math_log fl 10001) \<longrightarrow>
           f64_mul fl dbl_0_9 (Math_log fl 11) < f64_mul fl (1/2) (Math_log fl 10001))
      \<and> (9/10) * ln 11 < (1/2) * ln (10001::real))"
proof -
  have sorted: "sorted_wrt (\<lambda>x y. rank fl y \<le> rank fl x) (aggregate fl rs limit)"
    by (rule aggregate_descending)
  have stable: "filter (\<lambda>r. rank fl r = c) (aggregate fl rs limit)
               = take (length (filter (\<lambda>r. rank fl r = c) (aggregate fl rs limit)))
                   (filter (\<lambda>r. rank fl r = c) (first_occurrences rs))" for c
    using aggregate_stable[of fl c rs limit] by (simp only: unique_first)
  have whole: "filter (\<lambda>r. rank fl r = c) (aggregate fl rs limit)
                  = filter (\<lambda>r. rank fl r = c) (first_occurrences rs)"
    if "int (length rs) \<le> limit" for c
    using that ranking_stable[of fl c rs] by (simp only: aggregate_all unique_first)
  have pair: "aggregate fl [a, b] 2 = (if rank fl a < rank fl b then [b, a] else [a, b])"
    if "res_url a \<noteq> res_url b"
    using that by (rule aggregate_pair)
  have example: "aggregate fl [a, b] 2 = [b, a] \<longleftrightarrow>
              f64_mul fl dbl_0_9 (Math_log fl 11) < f64_mul fl (1/2) (Math_log fl 10001)"
    if h: "res_url a \<noteq> res_url b \<and> res_score a = dbl_0_9 \<and> res_stars a = 10
           \<and> res_score b = 1/2 \<and> res_stars b = 10000"
  proof -
    have u: "res_url a \<noteq> res_url b" using h by blast
    have sa: "res_score a = dbl_0_9" and ta: "res_stars a = 10"
      and sb: "res_score b = 1/2" and tb: "res_stars b = 10000"
      using h by blast+
    have ab: "a \<noteq> b" using u by auto
    have ra: "rank fl a = f64_mul fl dbl_0_9 (Math_log fl 11)"
      by (simp add: rank_def sa ta)
    have rb: "rank fl b = f64_mul fl (1/2) (Math_log fl 10001)"
      by (simp add: rank_def sb tb)
    show ?thesis using ab by (simp add: aggregate_pair[OF u] ra rb)
  qed
  have accurate: "f64_mul fl dbl_0_9 (Math_log fl 11) < f64_mul fl (1/2) (Math_log fl 10001)"
    if "within_tenth (Math_log fl 11) (ln 11) \<and> within_tenth (Math_log fl 10001) (ln 10001)
           \<and> within_tenth (f64_mul fl dbl_0_9 (Math_log fl 11)) (dbl_0_9 * Math_log fl 11)
           \<and> within_tenth (f64_mul fl (1/2) (Math_log fl 10001)) (1/2 * Math_log fl 10001)"
    using that by (intro accurate_example) simp_all
  show ?thesis
    unfolding Let_def rank_def[symmetric]
    using sorted stable whole pair example accurate ln_example by blast
qed

text \<open>
  Witness for C5: two results of equal rank score around one of a higher rank score, and
  A (score 0.9, stars 10) and B (score 0.5, stars 10000) in the example arithmetic.
\<close>

theorem aggregate_rank_order_stable_witness:
  "aggregate libm_float
     [example_result ''u1'' Github (1/2) 100, example_result ''u2'' Github 1 100,
      example_result ''u3'' Sourcegraph (1/2) 100] 3
     = [example_result ''u2'' Github 1 100, example_result ''u1'' Github (1/2) 100,
        example_result ''u3'' Sourcegraph (1/2) 100]
   \<and> within_tenth (Math_log libm_float 11) (ln 11)
   \<and> within_tenth (Math_log libm_float 10001) (ln 10001)
   \<and> f64_mul libm_float dbl_0_9 (Math_log libm_float 11)
       < f64_mul libm_float (1/2) (Math_log libm_float 10001)
   \<and> aggregate libm_float
       [example_result ''ua'' Github dbl_0_9 10, example_result ''ub'' Github (1/2) 10000] 2
     = [example_result ''ub'' Github (1/2) 10000, example_result ''ua'' Github dbl_0_9 10]"
proof -
  let ?rs = "[example_result ''u1'' Github (1/2) 100, example_result ''u2'' Github 1 100,
      example_result ''u3'' Sourcegraph (1/2) 100]"
  let ?a = "example_result ''ua'' Github dbl_0_9 10"
  let ?b = "example_result ''ub'' Github (1/2) 10000"
  note t = aggregate_rank_order_stable[of libm_float ?rs 3 ?a ?b, unfolded Let_def]
  have h: "res_url ?a \<noteq> res_url ?b \<and> res_score ?a = dbl_0_9 \<and> res_stars ?a = 10
           \<and> res_score ?b = 1/2 \<and> res_stars ?b = 10000"
    by (simp add: example_result_def)
  have acc: "within_tenth (Math_log libm_float 11) (ln 11)
           \<and> within_tenth (Math_log libm_float 10001) (ln 10001)
           \<and> within_tenth (f64_mul libm_float dbl_0_9 (Math_log libm_float 11))
               (dbl_0_9 * Math_log libm_float 11)
           \<and> within_tenth (f64_mul libm_float (1/2) (Math_log libm_float 10001))
               (1/2 * Math_log libm_float 10001)"
    using libm_float_accurate by blast
  from t acc have less: "f64_mul libm_float dbl_0_9 (Math_log libm_float 11)
       < f64_mul libm_float (1/2) (Math_log libm_float 10001)"
    by blast
  from t h less have ba: "aggregate libm_float [?a, ?b] 2 = [?b, ?a]"
    by blast
  have ties: "aggregate libm_float ?rs 3
     = [example_result ''u2'' Github 1 100, example_result ''u1'' Github (1/2) 100,
        example_result ''u3'' Sourcegraph (1/2) 100]"
    by (simp add: aggregate_def ranked_results_def unique_results_def js_sort_def slice0_def
          rank_def libm_float_def example_result_def)
  from ties acc less ba show ?thesis by blast
qed

text \<open>
  Claim C6. For every input sequence and every positive integer \<open>k\<close>, \<open>aggregate results k\<close>
  has exactly \<open>min k d\<close> entries, where \<open>d\<close> is the number of distinct urls of the input,
  and these entries are the first \<open>k\<close> of the ranking of the \<open>d\<close> deduplicated results,
  which is descending in the rank score (the double-precision product of the score with
  \<^verbatim>\<open>Math.log(stars + 1)\<close>): no deduplicated result that is left out has a higher rank score
  than a result that is returned.
\<close>

theorem aggregate_limit_truncation:
  "0 < k \<Longrightarrow>
     (let score = (\<lambda>r. f64_mul fl (res_score r) (Math_log fl (real (res_stars r) + 1))) in
        length (aggregate fl rs k) = min (nat k) (card (res_url ` set rs))
        \<and> aggregate fl rs k = take (nat k) (map fst (ranked_results fl rs))
        \<and> set (map fst (ranked_results fl rs)) = set (first_occurrences rs)
        \<and> length (map fst (ranked_results fl rs)) = card (res_url ` set rs)
        \<and> sorted_wrt (\<lambda>x y. score y \<le> score x) (map fst (ranked_results fl rs))
        \<and> sorted_wrt (\<lambda>x y. score y \<le> score x) (aggregate fl rs k)
        \<and> (\<forall>x \<in> set (aggregate fl rs k).
             \<forall>y \<in> set (first_occurrences rs) - set (aggregate fl rs k). score y \<le> score x))"
proof -
  assume k: "0 < k"
  let ?L = "map fst (ranked_results fl rs)"
  have agg: "aggregate fl rs k = take (nat k) ?L"
    using k by (simp add: aggregate_slice slice0_def)
  have all: "set ?L = set (first_occurrences rs)"
    by (simp only: ranking_set unique_first)
  have "sorted_wrt (\<lambda>x y. rank fl y \<le> rank fl x) (take (nat k) ?L @ drop (nat k) ?L)"
    using ranking_descending[of fl rs] by simp
  then have top: "\<forall>x \<in> set (take (nat k) ?L). \<forall>y \<in> set (drop (nat k) ?L). rank fl y \<le> rank fl x"
    unfolding sorted_wrt_append by blast
  have "set ?L = set (take (nat k) ?L) \<union> set (drop (nat k) ?L)"
    by (metis append_take_drop_id set_append)
  then have rest: "set (first_occurrences rs) - set (take (nat k) ?L) \<subseteq> set (drop (nat k) ?L)"
    unfolding all[symmetric] by blast
  have best: "\<forall>x \<in> set (aggregate fl rs k).
             \<forall>y \<in> set (first_occurrences rs) - set (aggregate fl rs k). rank fl y \<le> rank fl x"
    unfolding agg using top rest by blast
  have len: "length (aggregate fl rs k) = min (nat k) (card (res_url ` set rs))"
    by (simp add: agg length_ranking min.commute)
  have len': "length ?L = card (res_url ` set rs)"
    by (simp add: length_ranking)
  show ?thesis
    unfolding Let_def rank_def[symmetric]
    using len agg all len' ranking_descending[of fl rs] aggregate_descending[of fl rs k] best
    by blast
qed

text \<open>
  Witness for C6: four results with three distinct urls and three different rank scores,
  limit 2. The two results of the highest rank scores are returned, the higher first.
\<close>

theorem aggregate_limit_truncation_witness:
  "(0::int) < 2
   \<and> aggregate libm_float
       [example_result ''u1'' Github (1/2) 100,
        example_result ''u2'' Sourcegraph 1 100,
        example_result ''u3'' Sourcegraph (1/4) 100,
        example_result ''u1'' Sourcegraph 1 100] 2
     = [example_result ''u2'' Sourcegraph 1 100, example_result ''u1'' Github (1/2) 100]
   \<and> length (aggregate libm_float
       [example_result ''u1'' Github (1/2) 100,
        example_result ''u2'' Sourcegraph 1 100,
        example_result ''u3'' Sourcegraph (1/4) 100,
        example_result ''u1'' Sourcegraph 1 100] 2) = 2
   \<and> card (res_url ` set
       [example_result ''u1'' Github (1/2) 100,
        example_result ''u2'' Sourcegraph 1 100,
        example_result ''u3'' Sourcegraph (1/4) 100,
        example_result ''u1'' Sourcegraph 1 100]) = 3"
proof -
  let ?rs = "[example_result ''u1'' Github (1/2) 100,
        example_result ''u2'' Sourcegraph 1 100,
        example_result ''u3'' Sourcegraph (1/4) 100,
        example_result ''u1'' Sourcegraph 1 100]"
  have k: "(0::int) < 2" by simp
  have card: "card (res_url ` set ?rs) = 3"
    by (simp add: example_result_def card_insert_if)
  note t = aggregate_limit_truncation[OF k, of libm_float ?rs, unfolded Let_def]
  from t have "length (aggregate libm_float ?rs 2) = min (nat 2) (card (res_url ` set ?rs))"
    by blast
  then have len: "length (aggregate libm_float ?rs 2) = 2"
    unfolding card by simp
  have out: "aggregate libm_float ?rs 2
     = [example_result ''u2'' Sourcegraph 1 100, example_result ''u1'' Github (1/2) 100]"
    by (simp add: aggregate_def ranked_results_def unique_results_def js_sort_def slice0_def
          rank_def libm_float_def example_result_def)
  from k out len card show ?thesis by blast
qed

section \<open>Properties of normalizeQuery\<close>


lemma obj_set_fresh: "k \<notin> fst ` set acc \<Longrightarrow> obj_set k v acc = acc @ [(k, v)]"
  by (induction acc) auto

lemma obj_set_keys:
  "map fst (obj_set k v acc) = (if k \<in> fst ` set acc then map fst acc else map fst acc @ [k])"
  by (induction acc) (force split: if_splits)+

lemma obj_set_values: "snd ` set (obj_set k v acc) \<subseteq> insert v (snd ` set acc)"
  by (induction acc) (force split: if_splits)+

lemma copy_defined_distinct:
  "distinct (map fst acc) \<Longrightarrow> distinct (map fst (copy_defined acc fs))"
  by (induction acc fs rule: copy_defined.induct) (auto simp: obj_set_keys)

lemma copy_defined_values:
  "Undefined \<notin> snd ` set acc \<Longrightarrow> Undefined \<notin> snd ` set (copy_defined acc fs)"
proof (induction acc fs rule: copy_defined.induct)
  case (1 acc)
  then show ?case by simp
next
  case (2 acc k v kvs)
  show ?case
  proof (cases "v = Undefined")
    case True
    with 2 show ?thesis by simp
  next
    case False
    have "Undefined \<notin> snd ` set (obj_set k v acc)"
      using obj_set_values[of k v acc] False 2(3) by auto
    with 2 False show ?thesis by simp
  qed
qed

lemma copy_defined_append:
  "distinct (map fst fs) \<Longrightarrow> fst ` set fs \<inter> fst ` set acc = {} \<Longrightarrow>
     Undefined \<notin> snd ` set fs \<Longrightarrow> copy_defined acc fs = acc @ fs"
proof (induction acc fs rule: copy_defined.induct)
  case (1 acc)
  then show ?case by simp
next
  case (2 acc k v kvs)
  have v: "v \<noteq> Undefined" using 2(5) by auto
  have k: "k \<notin> fst ` set acc" using 2(4) by auto
  have "copy_defined (obj_set k v acc) kvs = obj_set k v acc @ kvs"
    using 2(3,4,5) v k by (intro 2(1)) (auto simp: obj_set_fresh)
  then show ?case using v k by (simp add: obj_set_fresh)
qed

lemma copy_defined_idem: "copy_defined [] (copy_defined [] fs) = copy_defined [] fs"
  by (rule copy_defined_append[of "copy_defined [] fs" "[]", simplified])
     (simp_all add: copy_defined_distinct copy_defined_values)

lemma normalized_filters_defined:
  "filter (\<lambda>kv. snd kv \<noteq> Undefined) (q_filters (normalizeQuery query))
     = q_filters (normalizeQuery query)"
proof -
  have "Undefined \<notin> snd ` set (copy_defined [] (q_filters query))"
    by (rule copy_defined_values) simp
  then have "\<forall>kv \<in> set (copy_defined [] (q_filters query)). snd kv \<noteq> Undefined"
    by force
  then show ?thesis
    by (simp add: normalizeQuery_def)
qed

lemma inj_provider_string: "inj provider_string"
proof (rule injI)
  fix x y assume "provider_string x = provider_string y"
  then show "x = y" by (cases x; cases y) simp_all
qed

lemma sort_providers_idem: "sort_providers (sort_providers ps) = sort_providers ps"
  by (simp add: sort_providers_def sort_key_id_if_sorted)

lemma filter_same_key:
  "filter (\<lambda>x. provider_string k = provider_string x) xs = replicate (count (mset xs) k) k"
proof -
  have "(\<lambda>x. provider_string k = provider_string x) = (\<lambda>x. k = x)"
    using inj_provider_string by (auto simp: inj_def)
  then show ?thesis
    by (induction xs) auto
qed

lemma sort_providers_perm: "mset ps' = mset ps \<Longrightarrow> sort_providers ps' = sort_providers ps"
proof -
  assume eq: "mset ps' = mset ps"
  show ?thesis
    unfolding sort_providers_def
  proof (rule properties_for_sort_key)
    show "mset (sort_key provider_string ps) = mset ps'" using eq by simp
    show "sorted (map provider_string (sort_key provider_string ps))" by simp
    fix k assume "k \<in> set (sort_key provider_string ps)"
    show "filter (\<lambda>x. provider_string k = provider_string x) (sort_key provider_string ps)
        = filter (\<lambda>x. provider_string k = provider_string x) ps'"
      using eq by (simp add: filter_same_key)
  qed
qed

text \<open>
  Claim C7. For every query, \<open>normalizeQuery\<close> is idempotent, and it gives the same result
  when the providers list is reversed, or reordered in any other way.
\<close>

theorem normalizeQuery_idempotent_order_independent:
  "normalizeQuery (normalizeQuery query) = normalizeQuery query
   \<and> normalizeQuery (query\<lparr>q_providers := rev (q_providers query)\<rparr>) = normalizeQuery query
   \<and> (mset ps = mset (q_providers query) \<longrightarrow>
        normalizeQuery (query\<lparr>q_providers := ps\<rparr>) = normalizeQuery query)"
  by (simp add: normalizeQuery_def sort_providers_idem copy_defined_idem
        sort_providers_perm[of "rev (q_providers query)" "q_providers query"]
        sort_providers_perm[of ps "q_providers query"])

text \<open>
  Witness for C7: the example query, whose providers are out of order and which has an
  explicitly undefined filter.
\<close>

theorem normalizeQuery_idempotent_order_independent_witness:
  "normalizeQuery example_query =
     \<lparr>q_q = ''foo'', q_providers = [Github, Sourcegraph],
      q_filters = [(Language, Str ''ts''), (Repo, Str ''a/b'')],
      q_limit = 10, q_cacheTTL = None\<rparr>
   \<and> normalizeQuery (normalizeQuery example_query) = normalizeQuery example_query
   \<and> mset [Github, Sourcegraph] = mset (q_providers example_query)
   \<and> normalizeQuery (example_query\<lparr>q_providers := [Github, Sourcegraph]\<rparr>)
       = normalizeQuery example_query"
  using normalizeQuery_idempotent_order_independent[of example_query "[Github, Sourcegraph]"]
  by (simp add: example_query_def normalizeQuery_def sort_providers_def)


section \<open>Properties of hashQuery\<close>

text \<open>
  Filter properties that are explicitly \<^verbatim>\<open>undefined\<close> do not reach the cache key: the query
  normalizes as the one that omits them.
\<close>

lemma copy_defined_drops_undefined:
  "copy_defined acc (filter (\<lambda>kv. snd kv \<noteq> Undefined) fs) = copy_defined acc fs"
  by (induction acc fs rule: copy_defined.induct) auto

lemma hashQuery_undefined_omitted:
  "hashQuery (normalizeQuery (query\<lparr>q_filters := filter (\<lambda>kv. snd kv \<noteq> Undefined) fs\<rparr>))
     = hashQuery (normalizeQuery (query\<lparr>q_filters := fs\<rparr>))"
  by (simp add: normalizeQuery_def copy_defined_drops_undefined)

lemma hashQuery_provider_order:
  "mset ps = mset (q_providers query) \<Longrightarrow>
     hashQuery (normalizeQuery (query\<lparr>q_providers := ps\<rparr>)) = hashQuery (normalizeQuery query)"
  by (simp add: normalizeQuery_def sort_providers_perm[of ps "q_providers query"])

lemmas json_defs = JSON_stringify_def json_filters_def json_string_def quote_char_def
  json_number_def digits.simps hex_digit_def normalizeQuery_def sort_providers_def Let_def

lemma json_lang_repo:
  \<open>JSON_stringify (normalizeQuery query_lang_repo) =
     ''{"q":"foo","providers":["github","sourcegraph"],"filters":{"language":"ts","repo":"a/b"},"limit":10}''\<close>
  by (simp add: query_lang_repo_def json_defs)

lemma json_repo_lang:
  \<open>JSON_stringify (normalizeQuery query_repo_lang) =
     ''{"q":"foo","providers":["github","sourcegraph"],"filters":{"repo":"a/b","language":"ts"},"limit":10}''\<close>
  by (simp add: query_repo_lang_def json_defs)

lemma replicate_numeral: "replicate (numeral k) x = x # replicate (pred_numeral k) x"
  by (simp add: numeral_eq_Suc)

lemmas sha_defs = sha256_hex_def sha256_words_def compress_def T1_def T2_def next_vars_def
  next_window_def pad_def be_bytes8_def add32_def be_word_def replicate_numeral K256_def H256_def
  Sigma0_def Sigma1_def sigma0_def sigma1_def Ch_def Maj_def rotr_def hex_word_def hex_digit_def

text \<open>The SHA-256 model on the test vector of FIPS 180-4 (the message \<open>abc\<close>).\<close>

lemma sha256_abc:
  "sha256_hex ''abc'' = ''ba7816bf8f01cfea414140de5dae2223b00361a396177a9cb410ff61f20015ad''"
  by (simp add: sha_defs)

lemma sha_lang_repo:
  \<open>sha256_hex ''{"q":"foo","providers":["github","sourcegraph"],"filters":{"language":"ts","repo":"a/b"},"limit":10}''
     = ''5b735558739edec67dc6df8aa0967cf6d473fad832d53f7020b8a99d2aec6890''\<close>
  by (simp add: sha_defs)

lemma sha_repo_lang:
  \<open>sha256_hex ''{"q":"foo","providers":["github","sourcegraph"],"filters":{"repo":"a/b","language":"ts"},"limit":10}''
     = ''bb50d36dcd33695a1a53f3407233c473eafbd4b0e3002687d062c25637cd47c7''\<close>
  by (simp add: sha_defs)

text \<open>
  Claim C2 (evaluated at a failing input). The two queries have the same text, providers,
  limit and filters; only the order in which the two filter keys were written differs.
  \<open>normalizeQuery\<close> copies the filters in the order of \<^verbatim>\<open>Object.entries\<close> and does not sort
  them, \<^verbatim>\<open>JSON.stringify\<close> prints them in that order, and the two cache keys differ.
\<close>

theorem hashQuery_depends_on_filter_key_order:
  "q_filters query_repo_lang = rev (q_filters query_lang_repo)
   \<and> query_repo_lang\<lparr>q_filters := []\<rparr> = query_lang_repo\<lparr>q_filters := []\<rparr>
   \<and> hashQuery (normalizeQuery query_lang_repo)
       = ''5b735558739edec67dc6df8aa0967cf6d473fad832d53f7020b8a99d2aec6890''
   \<and> hashQuery (normalizeQuery query_repo_lang)
       = ''bb50d36dcd33695a1a53f3407233c473eafbd4b0e3002687d062c25637cd47c7''
   \<and> hashQuery (normalizeQuery query_lang_repo) \<noteq> hashQuery (normalizeQuery query_repo_lang)"
proof -
  have a: "hashQuery (normalizeQuery query_lang_repo)
             = ''5b735558739edec67dc6df8aa0967cf6d473fad832d53f7020b8a99d2aec6890''"
    by (simp only: hashQuery_def json_lang_repo sha_lang_repo)
  have b: "hashQuery (normalizeQuery query_repo_lang)
             = ''bb50d36dcd33695a1a53f3407233c473eafbd4b0e3002687d062c25637cd47c7''"
    by (simp only: hashQuery_def json_repo_lang sha_repo_lang)
  have c: "q_filters query_repo_lang = rev (q_filters query_lang_repo)"
    by (simp add: query_lang_repo_def query_repo_lang_def)
  have d: "query_repo_lang\<lparr>q_filters := []\<rparr> = query_lang_repo\<lparr>q_filters := []\<rparr>"
    by (simp add: query_lang_repo_def query_repo_lang_def)
  have e: "hashQuery (normalizeQuery query_lang_repo) \<noteq> hashQuery (normalizeQuery query_repo_lang)"
    unfolding a b by simp
  from a b c d e show ?thesis by blast
qed

section \<open>Properties of percentile\<close>

lemma nearest_rank_index_less: "0 < n \<Longrightarrow> nearest_rank_index n p < n"
  by (auto simp: nearest_rank_index_def)

lemma percentile_index:
  "xs \<noteq> [] \<Longrightarrow> percentile xs p = xs ! nearest_rank_index (length xs) p"
  by (auto simp: percentile_def js_index_def nearest_rank_index_def Let_def)

lemma ceiling_bounds:
  assumes "0 < n" "0 < p" "p \<le> 1"
  shows "1 \<le> \<lceil>real n * p\<rceil>" and "\<lceil>real n * p\<rceil> \<le> int n"
proof -
  have "0 < real n * p" using assms by simp
  then show "1 \<le> \<lceil>real n * p\<rceil>" by (simp add: ceiling_le_iff less_ceiling_iff)
  have "real n * p \<le> real n" using assms by (simp add: mult_left_le)
  then show "\<lceil>real n * p\<rceil> \<le> int n" by (simp add: ceiling_le_iff)
qed

lemma nearest_rank_index_unclamped:
  "0 < n \<Longrightarrow> 0 < p \<Longrightarrow> p \<le> 1 \<Longrightarrow> nearest_rank_index n p = nat \<lceil>real n * p\<rceil> - 1"
  using ceiling_bounds[of n p] by (auto simp: nearest_rank_index_def)

lemma nearest_rank_at_least:
  assumes "xs \<noteq> []" "sorted xs" "0 < p" "p \<le> 1"
  shows "p * real (length xs) \<le> real (length (filter (\<lambda>y. y \<le> percentile xs p) xs))"
proof -
  let ?n = "length xs"
  let ?i = "nearest_rank_index ?n p"
  let ?x = "xs ! ?i"
  have n: "0 < ?n" using assms(1) by simp
  have i: "?i < ?n" using n by (rule nearest_rank_index_less)
  have c: "int ?i + 1 = \<lceil>real ?n * p\<rceil>"
  proof -
    have "1 \<le> \<lceil>real ?n * p\<rceil>" by (rule ceiling_bounds(1)[OF n assms(3,4)])
    then show ?thesis
      unfolding nearest_rank_index_unclamped[OF n assms(3,4)] by arith
  qed
  have "\<forall>y \<in> set (take (Suc ?i) xs). y \<le> ?x"
  proof
    fix y assume "y \<in> set (take (Suc ?i) xs)"
    then obtain j where "j < Suc ?i" "y = xs ! j"
      using i by (auto simp: in_set_conv_nth)
    then show "y \<le> ?x" using assms(2) i by (auto intro: sorted_nth_mono)
  qed
  then have "filter (\<lambda>y. y \<le> ?x) (take (Suc ?i) xs) = take (Suc ?i) xs"
    by (simp add: filter_id_conv)
  moreover have "filter (\<lambda>y. y \<le> ?x) xs
      = filter (\<lambda>y. y \<le> ?x) (take (Suc ?i) xs) @ filter (\<lambda>y. y \<le> ?x) (drop (Suc ?i) xs)"
    by (metis append_take_drop_id filter_append)
  ultimately have "Suc ?i \<le> length (filter (\<lambda>y. y \<le> ?x) xs)"
    using i by simp
  then have "real_of_int (int ?i + 1) \<le> real (length (filter (\<lambda>y. y \<le> ?x) xs))"
    by linarith
  then have A: "real_of_int \<lceil>real ?n * p\<rceil> \<le> real (length (filter (\<lambda>y. y \<le> ?x) xs))"
    unfolding c .
  have B: "real ?n * p \<le> real_of_int \<lceil>real ?n * p\<rceil>" by (rule le_of_int_ceiling)
  have "real ?n * p \<le> real (length (filter (\<lambda>y. y \<le> ?x) xs))"
    using B A by (rule order_trans)
  then show ?thesis
    by (simp add: percentile_index[OF assms(1)] mult.commute)
qed

lemma nearest_rank_least:
  assumes "xs \<noteq> []" "sorted xs" "0 < p" "p \<le> 1" "y < percentile xs p"
  shows "real (length (filter (\<lambda>z. z \<le> y) xs)) < p * real (length xs)"
proof -
  let ?n = "length xs"
  let ?i = "nearest_rank_index ?n p"
  let ?x = "xs ! ?i"
  have n: "0 < ?n" using assms(1) by simp
  have i: "?i < ?n" using n by (rule nearest_rank_index_less)
  have c: "int ?i + 1 = \<lceil>real ?n * p\<rceil>"
  proof -
    have "1 \<le> \<lceil>real ?n * p\<rceil>" by (rule ceiling_bounds(1)[OF n assms(3,4)])
    then show ?thesis
      unfolding nearest_rank_index_unclamped[OF n assms(3,4)] by arith
  qed
  have y: "y < ?x" using assms(5) by (simp add: percentile_index[OF assms(1)])
  have "\<forall>z \<in> set (drop ?i xs). \<not> z \<le> y"
  proof
    fix z assume "z \<in> set (drop ?i xs)"
    then obtain j where "j < ?n - ?i" "z = xs ! (?i + j)"
      by (auto simp: in_set_conv_nth)
    then have "?x \<le> z" using assms(2) by (auto intro: sorted_nth_mono)
    then show "\<not> z \<le> y" using y by simp
  qed
  then have "filter (\<lambda>z. z \<le> y) (drop ?i xs) = []"
    by (simp add: filter_empty_conv)
  moreover have "filter (\<lambda>z. z \<le> y) xs
      = filter (\<lambda>z. z \<le> y) (take ?i xs) @ filter (\<lambda>z. z \<le> y) (drop ?i xs)"
    by (metis append_take_drop_id filter_append)
  ultimately have "length (filter (\<lambda>z. z \<le> y) xs) \<le> length (take ?i xs)"
    by (simp add: length_filter_le del: length_take)
  then have "length (filter (\<lambda>z. z \<le> y) xs) \<le> ?i" using i by simp
  then have "real (length (filter (\<lambda>z. z \<le> y) xs)) \<le> real_of_int \<lceil>real ?n * p\<rceil> - 1"
    using c by linarith
  moreover have "real_of_int \<lceil>real ?n * p\<rceil> - 1 < real ?n * p"
    using ceiling_correct[of "real ?n * p"] by simp
  ultimately show ?thesis by (simp add: mult.commute)
qed


text \<open>
  Claim C9. The percentiles of the metrics are nearest-rank estimates. On an empty sample
  list every percentile is 0. On a non-empty list of \<open>n\<close> samples the result is the element
  at index \<open>\<lceil>n \<times> p\<rceil> - 1\<close> clamped to \<open>[0, n - 1]\<close>, which is inside the list; for
  \<open>p\<close> in \<open>{0.5, 0.95, 0.99}\<close> the clamping changes nothing, and on an ascending list the
  result is the nearest-rank percentile: at least \<open>p \<times> n\<close> samples are at most the result,
  and fewer than \<open>p \<times> n\<close> samples are at most any smaller value. \<^verbatim>\<open>stats\<close> reports as p50,
  p95 and p99 of a provider these percentiles of its samples sorted ascending.

  The source multiplies in double precision; for \<open>p\<close> in \<open>{0.5, 0.95, 0.99}\<close> and fewer
  than \<open>2\<^sup>5\<^sup>0\<close> samples the ceiling of the rounded product is the ceiling of the exact one.
\<close>

theorem percentile_nearest_rank:
  "percentile [] p = 0
   \<and> (xs \<noteq> [] \<longrightarrow>
        percentile xs p = xs ! nearest_rank_index (length xs) p
        \<and> nearest_rank_index (length xs) p < length xs)
   \<and> (xs \<noteq> [] \<and> p \<in> {1/2, 95/100, 99/100} \<longrightarrow>
        nearest_rank_index (length xs) p = nat \<lceil>real (length xs) * p\<rceil> - 1)
   \<and> (xs \<noteq> [] \<and> sorted xs \<and> p \<in> {1/2, 95/100, 99/100} \<longrightarrow>
        p * real (length xs) \<le> real (length (filter (\<lambda>y. y \<le> percentile xs p) xs))
        \<and> (\<forall>y. y < percentile xs p \<longrightarrow>
               real (length (filter (\<lambda>z. z \<le> y) xs)) < p * real (length xs)))
   \<and> st_p50 (stats_row g) = percentile (group_latencies g) (1/2)
   \<and> st_p95 (stats_row g) = percentile (group_latencies g) (95/100)
   \<and> st_p99 (stats_row g) = percentile (group_latencies g) (99/100)
   \<and> sorted (group_latencies g)"
proof (intro conjI impI allI)
  show "percentile [] p = 0" by (simp add: percentile_def)
  show "percentile xs p = xs ! nearest_rank_index (length xs) p" if "xs \<noteq> []"
    using that by (rule percentile_index)
  show "nearest_rank_index (length xs) p < length xs" if "xs \<noteq> []"
    using that by (simp add: nearest_rank_index_less)
  show "nearest_rank_index (length xs) p = nat \<lceil>real (length xs) * p\<rceil> - 1"
    if "xs \<noteq> [] \<and> p \<in> {1/2, 95/100, 99/100}"
    using that by (intro nearest_rank_index_unclamped) auto
  show "p * real (length xs) \<le> real (length (filter (\<lambda>y. y \<le> percentile xs p) xs))"
    if "xs \<noteq> [] \<and> sorted xs \<and> p \<in> {1/2, 95/100, 99/100}"
    using that by (intro nearest_rank_at_least) auto
  show "real (length (filter (\<lambda>z. z \<le> y) xs)) < p * real (length xs)"
    if "xs \<noteq> [] \<and> sorted xs \<and> p \<in> {1/2, 95/100, 99/100}" and "y < percentile xs p" for y
    using that by (intro nearest_rank_least) auto
  show "st_p50 (stats_row g) = percentile (group_latencies g) (1/2)"
    by (simp add: stats_row_def group_latencies_def Let_def)
  show "st_p95 (stats_row g) = percentile (group_latencies g) (95/100)"
    by (simp add: stats_row_def group_latencies_def Let_def)
  show "st_p99 (stats_row g) = percentile (group_latencies g) (99/100)"
    by (simp add: stats_row_def group_latencies_def Let_def)
  show "sorted (group_latencies g)"
    by (simp add: group_latencies_def split: option.split)
qed

text \<open>
  Witness for C9: the ten samples of tests/core/metrics.test.ts; p95 is the tenth sample.
\<close>

theorem percentile_nearest_rank_witness:
  "percentile [100, 200, 300, 400, 500, 600, 700, 800, 900, 1000] (95/100) = 1000
   \<and> nearest_rank_index 10 (95/100) = 9
   \<and> 95/100 * real (length [100, 200, 300, 400, 500, 600, 700, 800, 900, 1000 :: int])
        \<le> real (length (filter (\<lambda>y. y \<le> 1000) [100, 200, 300, 400, 500, 600, 700, 800, 900, 1000 :: int]))
   \<and> real (length (filter (\<lambda>z. z \<le> 900) [100, 200, 300, 400, 500, 600, 700, 800, 900, 1000 :: int]))
        < 95/100 * real (length [100, 200, 300, 400, 500, 600, 700, 800, 900, 1000 :: int])"
proof -
  let ?xs = "[100, 200, 300, 400, 500, 600, 700, 800, 900, 1000] :: int list"
  note t = percentile_nearest_rank[of "95/100" ?xs]
  have ne: "?xs \<noteq> []" by simp
  have pin: "?xs \<noteq> [] \<and> (95/100::real) \<in> {1/2, 95/100, 99/100}" by simp
  have srt: "?xs \<noteq> [] \<and> sorted ?xs \<and> (95/100::real) \<in> {1/2, 95/100, 99/100}" by simp
  have idx: "nearest_rank_index (length ?xs) (95/100) = 9"
    by (simp add: nearest_rank_index_def)
  from t ne have "percentile ?xs (95/100) = ?xs ! nearest_rank_index (length ?xs) (95/100)"
    by blast
  then have p: "percentile ?xs (95/100) = 1000"
    unfolding idx by simp
  from t srt have a: "95/100 * real (length ?xs)
      \<le> real (length (filter (\<lambda>y. y \<le> percentile ?xs (95/100)) ?xs))"
    by blast
  from t srt have "\<forall>y. y < percentile ?xs (95/100) \<longrightarrow>
      real (length (filter (\<lambda>z. z \<le> y) ?xs)) < 95/100 * real (length ?xs)"
    by blast
  then have b: "real (length (filter (\<lambda>z. z \<le> 900) ?xs)) < 95/100 * real (length ?xs)"
    unfolding p by simp
  from a have a': "95/100 * real (length ?xs) \<le> real (length (filter (\<lambda>y. y \<le> 1000) ?xs))"
    unfolding p .
  have idx': "nearest_rank_index 10 (95/100) = 9" by (simp add: nearest_rank_index_def)
  from p idx' a' b show ?thesis by blast
qed

section \<open>Properties of the cache repository\<close>

lemma json_roundtrip_fields [simp]:
  "resp_results (json_roundtrip r) = resp_results r"
  "resp_total (json_roundtrip r) = resp_total r"
  "resp_cached (json_roundtrip r) = resp_cached r"
  "resp_elapsed_ms (json_roundtrip r) = resp_elapsed_ms r"
  "resp_search_elapsed_ms (json_roundtrip r) = resp_search_elapsed_ms r"
  "resp_errors (json_roundtrip r) = map json_error (resp_errors r)"
  "resp_query (json_roundtrip r) =
     (resp_query r)\<lparr>q_filters := filter (\<lambda>kv. snd kv \<noteq> Undefined) (q_filters (resp_query r))\<rparr>"
  by (simp_all add: json_roundtrip_def)

lemma json_roundtrip_example: "json_roundtrip example_response = example_response"
  by (simp add: json_roundtrip_def example_response_def)

lemma cache_set_ok:
  "\<not> db_fault env (tick w) \<Longrightarrow>
     cache_set env key v ttl w =
       (Inr (), w\<lparr>tick := Suc (tick w),
                  cache_tbl := (cache_tbl w)(key \<mapsto>
                    \<lparr>row_value = json_roundtrip v, row_created_at = clk env (tick w) div 1000,
                     row_expires_at = clk env (tick w) div 1000 + ttl\<rparr>)\<rparr>)"
  by (simp add: cache_set_def Date_now_def Let_def)

lemma cache_get_tbl: "cache_tbl (snd (cache_get env key w)) = cache_tbl w"
  by (simp add: cache_get_def Date_now_def Let_def split: option.split)

lemma cache_get_ok:
  "\<not> db_fault env (tick w) \<Longrightarrow>
     fst (cache_get env key w) =
       Inr (case cache_tbl w key of
              None \<Rightarrow> None
            | Some row \<Rightarrow>
                if clk env (tick w) div 1000 < row_expires_at row then Some (row_value row) else None)"
  by (simp add: cache_get_def Date_now_def Let_def split: option.split)

lemma cache_get_expired:
  "cache_tbl w key = Some row \<Longrightarrow> row_expires_at row \<le> clk env (tick w) div 1000 \<Longrightarrow>
     fst (cache_get env key w) \<noteq> Inr (Some r)"
  by (simp add: cache_get_def Date_now_def Let_def)

text \<open>
  Claim C8. Unless the database fails, \<open>set\<close> succeeds for every TTL and upserts: the row
  of the key becomes the new value (its JSON text, which reads back as \<open>json_roundtrip\<close> of
  it) with \<open>expires_at = now + ttlSec\<close>, so of two writes to a key the last one stays. \<open>get\<close> never returns an entry whose \<open>expires_at\<close> is not
  strictly after the second of the lookup, returns the entry when it is, and never changes
  the table. So after \<open>set\<close> with \<open>ttlSec \<le> 0\<close> a following \<open>get\<close> of the key returns
  null, the clock not running backwards in between.
\<close>

theorem cache_expiry_and_upsert:
  "(\<not> db_fault env (tick w) \<longrightarrow>
      fst (cache_set env key v ttl w) = Inr ()
      \<and> cache_tbl (snd (cache_set env key v ttl w)) =
          (cache_tbl w)(key \<mapsto> \<lparr>row_value = json_roundtrip v,
                                  row_created_at = clk env (tick w) div 1000,
                                  row_expires_at = clk env (tick w) div 1000 + ttl\<rparr>))
   \<and> (cache_tbl w key = Some row \<and> row_expires_at row \<le> clk env (tick w) div 1000 \<longrightarrow>
        (\<forall>r. fst (cache_get env key w) \<noteq> Inr (Some r)))
   \<and> (\<not> db_fault env (tick w) \<longrightarrow>
        fst (cache_get env key w) =
          Inr (case cache_tbl w key of
                 None \<Rightarrow> None
               | Some row \<Rightarrow>
                   if clk env (tick w) div 1000 < row_expires_at row then Some (row_value row)
                   else None))
   \<and> cache_tbl (snd (cache_get env key w)) = cache_tbl w
   \<and> (ttl \<le> 0 \<and> \<not> db_fault env (tick w) \<and> \<not> db_fault env (Suc (tick w))
        \<and> clk env (tick w) \<le> clk env (Suc (tick w)) \<longrightarrow>
        fst (cache_get env key (snd (cache_set env key v ttl w))) = Inr None)
   \<and> (\<not> db_fault env (tick w) \<and> \<not> db_fault env (Suc (tick w)) \<longrightarrow>
        cache_tbl (snd (cache_set env key v' ttl' (snd (cache_set env key v ttl w)))) key =
          Some \<lparr>row_value = json_roundtrip v', row_created_at = clk env (Suc (tick w)) div 1000,
                row_expires_at = clk env (Suc (tick w)) div 1000 + ttl'\<rparr>)"
proof (intro conjI impI allI)
  show "fst (cache_set env key v ttl w) = Inr ()" if "\<not> db_fault env (tick w)"
    using that by (simp add: cache_set_ok)
  show "cache_tbl (snd (cache_set env key v ttl w)) =
          (cache_tbl w)(key \<mapsto> \<lparr>row_value = json_roundtrip v,
                                  row_created_at = clk env (tick w) div 1000,
                                  row_expires_at = clk env (tick w) div 1000 + ttl\<rparr>)"
    if "\<not> db_fault env (tick w)"
    using that by (simp add: cache_set_ok)
  show "fst (cache_get env key w) \<noteq> Inr (Some r)"
    if "cache_tbl w key = Some row \<and> row_expires_at row \<le> clk env (tick w) div 1000" for r
    using that by (intro cache_get_expired) auto
  show "fst (cache_get env key w) =
          Inr (case cache_tbl w key of
                 None \<Rightarrow> None
               | Some row \<Rightarrow>
                   if clk env (tick w) div 1000 < row_expires_at row then Some (row_value row)
                   else None)"
    if "\<not> db_fault env (tick w)"
    using that by (rule cache_get_ok)
  show "cache_tbl (snd (cache_get env key w)) = cache_tbl w" by (rule cache_get_tbl)
  show "fst (cache_get env key (snd (cache_set env key v ttl w))) = Inr None"
    if h: "ttl \<le> 0 \<and> \<not> db_fault env (tick w) \<and> \<not> db_fault env (Suc (tick w))
        \<and> clk env (tick w) \<le> clk env (Suc (tick w))"
  proof -
    have "clk env (tick w) div 1000 \<le> clk env (Suc (tick w)) div 1000"
      using h by (intro zdiv_mono1) auto
    then show ?thesis using h by (simp add: cache_set_ok cache_get_ok)
  qed
  show "cache_tbl (snd (cache_set env key v' ttl' (snd (cache_set env key v ttl w)))) key =
          Some \<lparr>row_value = json_roundtrip v', row_created_at = clk env (Suc (tick w)) div 1000,
                row_expires_at = clk env (Suc (tick w)) div 1000 + ttl'\<rparr>"
    if "\<not> db_fault env (tick w) \<and> \<not> db_fault env (Suc (tick w))"
    using that by (simp add: cache_set_ok)
qed

text \<open>
  Witness for C8: a write with TTL -1 followed by a read, as in the test
  \<^verbatim>\<open>returns null for expired entry\<close>, and a write with TTL 3600 followed by a read.
\<close>

theorem cache_expiry_and_upsert_witness:
  "fst (cache_set steady_env ''key2'' example_response (-1) empty_world) = Inr ()
   \<and> fst (cache_get steady_env ''key2''
            (snd (cache_set steady_env ''key2'' example_response (-1) empty_world))) = Inr None
   \<and> fst (cache_get steady_env ''key1''
            (snd (cache_set steady_env ''key1'' example_response 3600 empty_world)))
       = Inr (Some example_response)"
proof -
  note t = cache_expiry_and_upsert[of steady_env empty_world "''key2''" example_response "-1"]
  have f0: "\<not> db_fault steady_env (tick empty_world)" by (simp add: steady_env_def)
  have h: "(-1::int) \<le> 0 \<and> \<not> db_fault steady_env (tick empty_world)
        \<and> \<not> db_fault steady_env (Suc (tick empty_world))
        \<and> clk steady_env (tick empty_world) \<le> clk steady_env (Suc (tick empty_world))"
    by (simp add: steady_env_def empty_world_def)
  from t f0 have a: "fst (cache_set steady_env ''key2'' example_response (-1) empty_world) = Inr ()"
    by blast
  from t h have b: "fst (cache_get steady_env ''key2''
            (snd (cache_set steady_env ''key2'' example_response (-1) empty_world))) = Inr None"
    by blast
  have c: "fst (cache_get steady_env ''key1''
            (snd (cache_set steady_env ''key1'' example_response 3600 empty_world)))
       = Inr (Some example_response)"
    by (simp add: cache_get_def cache_set_def Date_now_def steady_env_def empty_world_def Let_def
          json_roundtrip_example)
  from a b c show ?thesis by blast
qed

section \<open>Properties of SearchEngine.search\<close>

lemma Date_now_fst [simp]: "fst (Date_now env w) = clk env (tick w)"
  by (simp add: Date_now_def)

lemma Date_now_snd [simp]: "snd (Date_now env w) = w\<lparr>tick := Suc (tick w)\<rparr>"
  by (simp add: Date_now_def)

lemma metrics_record_world:
  "tick (snd (metrics_record env m w)) = Suc (tick w)"
  "calls (snd (metrics_record env m w)) = calls w"
  "cache_tbl (snd (metrics_record env m w)) = cache_tbl w"
  by (simp_all add: metrics_record_def Date_now_def)

lemma metrics_record_fault:
  "db_fault env (tick w) \<Longrightarrow> snd (metrics_record env m w) = w\<lparr>tick := Suc (tick w)\<rparr>"
  by (simp add: metrics_record_def Date_now_def)

lemma cache_get_snd: "snd (cache_get env key w) = w\<lparr>tick := Suc (tick w)\<rparr>"
  by (simp add: cache_get_def Date_now_def Let_def split: option.split)

lemma cache_set_world:
  "tick (snd (cache_set env key v ttl w)) = Suc (tick w)"
  "calls (snd (cache_set env key v ttl w)) = calls w"
  "cache_tbl (snd (cache_set env key v ttl w)) =
     (if db_fault env (tick w) then cache_tbl w
      else (cache_tbl w)(key \<mapsto> \<lparr>row_value = json_roundtrip v,
                                   row_created_at = clk env (tick w) div 1000,
                                   row_expires_at = clk env (tick w) div 1000 + ttl\<rparr>))"
  by (simp_all add: cache_set_def Date_now_def Let_def)

lemma collect_spec:
  "fst (collect env nq t0 sps (rs, es, w)) = rs @ settled_results sps
   \<and> fst (snd (collect env nq t0 sps (rs, es, w))) = es @ settled_errors sps
   \<and> tick (snd (snd (collect env nq t0 sps (rs, es, w)))) = tick w + 2 * length sps
   \<and> calls (snd (snd (collect env nq t0 sps (rs, es, w)))) = calls w
   \<and> cache_tbl (snd (snd (collect env nq t0 sps (rs, es, w)))) = cache_tbl w"
proof (induction sps arbitrary: rs es w)
  case Nil
  show ?case by simp
next
  case (Cons sp sps)
  obtain s p where sp: "sp = (s, p)" by (cases sp)
  show ?case
  proof (cases s)
    case (Fulfilled val)
    then show ?thesis
      unfolding sp
      by (simp add: Let_def split_def Cons.IH metrics_record_world)
  next
    case (Rejected err)
    then show ?thesis
      unfolding sp
      by (simp add: Let_def split_def Cons.IH metrics_record_world provider_error_def)
  qed
qed


lemma length_settlements_of [simp]:
  "length (settlements_of eng nq) = length (activeProviders eng nq)"
  by (simp add: settlements_of_def)

lemma not_hit_cases:
  "(\<forall>c. g \<noteq> Inr (Some c)) \<Longrightarrow> (case g of Inl _ \<Rightarrow> None | Inr c \<Rightarrow> c) = None"
  by (cases g) auto

lemma search_hit:
  assumes "fst (cache_get env (hashQuery (normalizeQuery query)) (w0\<lparr>tick := Suc (tick w0)\<rparr>))
             = Inr (Some c)"
  shows "fst (search env eng query w0) =
           c\<lparr>resp_cached := True,
             resp_elapsed_ms := clk env (tick (snd (search env eng query w0)) - 1) - clk env (tick w0),
             resp_search_elapsed_ms := Some (resp_elapsed_ms c)\<rparr>"
    and "calls (snd (search env eng query w0)) = calls w0"
    and "cache_tbl (snd (search env eng query w0)) = cache_tbl w0"
    and "tick (snd (search env eng query w0)) =
           tick w0 + (if q_providers (normalizeQuery query) = [] then 3 else 4)"
    and "q_providers (normalizeQuery query) = [] \<Longrightarrow>
           snd (search env eng query w0) = w0\<lparr>tick := tick w0 + 3\<rparr>"
  using assms
  by (simp_all add: search_def Let_def split_def cache_get_snd metrics_record_world
        split: list.split)

lemma search_miss:
  assumes "\<forall>c. fst (cache_get env (hashQuery (normalizeQuery query)) (w0\<lparr>tick := Suc (tick w0)\<rparr>))
             \<noteq> Inr (Some c)"
  shows "fst (search env eng query w0) =
           \<lparr>resp_query = normalizeQuery query,
            resp_results = aggregate (arith env)
                             (settled_results (settlements_of eng (normalizeQuery query)))
                             (q_limit (normalizeQuery query)),
            resp_total = int (length (aggregate (arith env)
                             (settled_results (settlements_of eng (normalizeQuery query)))
                             (q_limit (normalizeQuery query)))),
            resp_cached = False,
            resp_elapsed_ms =
              clk env (tick w0 + 2 + 2 * length (activeProviders eng (normalizeQuery query)))
                - clk env (tick w0),
            resp_errors = settled_errors (settlements_of eng (normalizeQuery query)),
            resp_search_elapsed_ms = None\<rparr>"
    and "tick (snd (search env eng query w0)) =
           tick w0 + 4 + 2 * length (activeProviders eng (normalizeQuery query))"
    and "calls (snd (search env eng query w0)) =
           calls w0 @ map (\<lambda>p. (p_name p, normalizeQuery query))
                        (activeProviders eng (normalizeQuery query))"
    and "cache_tbl (snd (search env eng query w0)) =
           (if db_fault env (tick w0 + 3 + 2 * length (activeProviders eng (normalizeQuery query)))
            then cache_tbl w0
            else (cache_tbl w0)(hashQuery (normalizeQuery query) \<mapsto>
                   \<lparr>row_value = json_roundtrip (fst (search env eng query w0)),
                    row_created_at =
                      clk env (tick w0 + 3 + 2 * length (activeProviders eng (normalizeQuery query)))
                        div 1000,
                    row_expires_at =
                      clk env (tick w0 + 3 + 2 * length (activeProviders eng (normalizeQuery query)))
                        div 1000 + cache_ttl eng query\<rparr>))"
proof -
  note miss = not_hit_cases[OF assms]
  note [simp] = search_def Let_def split_def cache_get_snd miss collect_spec cache_set_world
    settlements_of_def[symmetric] cache_ttl_def[symmetric]
  show "fst (search env eng query w0) =
           \<lparr>resp_query = normalizeQuery query,
            resp_results = aggregate (arith env)
                             (settled_results (settlements_of eng (normalizeQuery query)))
                             (q_limit (normalizeQuery query)),
            resp_total = int (length (aggregate (arith env)
                             (settled_results (settlements_of eng (normalizeQuery query)))
                             (q_limit (normalizeQuery query)))),
            resp_cached = False,
            resp_elapsed_ms =
              clk env (tick w0 + 2 + 2 * length (activeProviders eng (normalizeQuery query)))
                - clk env (tick w0),
            resp_errors = settled_errors (settlements_of eng (normalizeQuery query)),
            resp_search_elapsed_ms = None\<rparr>"
    by simp
  show "tick (snd (search env eng query w0)) =
           tick w0 + 4 + 2 * length (activeProviders eng (normalizeQuery query))"
    by simp
  show "calls (snd (search env eng query w0)) =
           calls w0 @ map (\<lambda>p. (p_name p, normalizeQuery query))
                        (activeProviders eng (normalizeQuery query))"
    by simp
  show "cache_tbl (snd (search env eng query w0)) =
           (if db_fault env (tick w0 + 3 + 2 * length (activeProviders eng (normalizeQuery query)))
            then cache_tbl w0
            else (cache_tbl w0)(hashQuery (normalizeQuery query) \<mapsto>
                   \<lparr>row_value = json_roundtrip (fst (search env eng query w0)),
                    row_created_at =
                      clk env (tick w0 + 3 + 2 * length (activeProviders eng (normalizeQuery query)))
                        div 1000,
                    row_expires_at =
                      clk env (tick w0 + 3 + 2 * length (activeProviders eng (normalizeQuery query)))
                        div 1000 + cache_ttl eng query\<rparr>))"
  proof -
    have e: "tick w0 + 3 + 2 * length (activeProviders eng (normalizeQuery query))
               = Suc (Suc (Suc (tick w0 + 2 * length (activeProviders eng (normalizeQuery query)))))"
      by simp
    show ?thesis unfolding e by simp
  qed
qed


lemma cache_get_hit_row:
  "fst (cache_get env key w) = Inr (Some c) \<Longrightarrow>
     \<exists>row. cache_tbl w key = Some row \<and> row_value row = c"
  by (auto simp: cache_get_def Date_now_def Let_def split: option.splits if_splits)

lemma settled_pair_good_bad:
  "settled_results [(Fulfilled rs, pa), (Rejected err, pb)] = rs"
  "settled_results [(Rejected err, pa), (Fulfilled rs, pb)] = rs"
  "settled_errors [(Fulfilled rs, pa), (Rejected err, pb)] = [provider_error pb err]"
  "settled_errors [(Rejected err, pa), (Fulfilled rs, pb)] = [provider_error pa err]"
  by simp_all



text \<open>
  Claim C10. On a cache hit for a query whose normalized providers list is empty,
  \<open>search\<close> writes no metrics record (the metrics table, like the rest of the world apart
  from the clock, is unchanged) and returns the cached response with \<open>cached = true\<close>.
\<close>

theorem search_cache_hit_without_providers:
  assumes "q_providers (normalizeQuery query) = []"
    and "fst (cache_get env (hashQuery (normalizeQuery query)) (snd (Date_now env w0))) = Inr (Some c)"
  shows "fst (search env eng query w0) =
           c\<lparr>resp_cached := True,
             resp_elapsed_ms := clk env (tick w0 + 2) - clk env (tick w0),
             resp_search_elapsed_ms := Some (resp_elapsed_ms c)\<rparr>
     \<and> resp_cached (fst (search env eng query w0))
     \<and> metrics_tbl (snd (search env eng query w0)) = metrics_tbl w0
     \<and> snd (search env eng query w0) = w0\<lparr>tick := tick w0 + 3\<rparr>"
proof -
  have hit: "fst (cache_get env (hashQuery (normalizeQuery query)) (w0\<lparr>tick := Suc (tick w0)\<rparr>))
               = Inr (Some c)"
    using assms(2) by simp
  have w: "snd (search env eng query w0) = w0\<lparr>tick := tick w0 + 3\<rparr>"
    using search_hit(5)[OF hit assms(1)] .
  have r: "fst (search env eng query w0) =
           c\<lparr>resp_cached := True,
             resp_elapsed_ms := clk env (tick w0 + 2) - clk env (tick w0),
             resp_search_elapsed_ms := Some (resp_elapsed_ms c)\<rparr>"
    using search_hit(1)[OF hit, of eng] by (simp add: w)
  show ?thesis by (simp add: r w)
qed

text \<open>
  Claim C3. Let \<open>search query\<close> be called twice in a row, the database not failing at the
  cache write of the first call nor at the lookup of the second, and the entry of the
  query not expired at the second lookup. Then the cache holds an entry for the query after
  the first call, and the second call returns that entry with \<open>cached = true\<close>, with
  \<open>elapsed_ms\<close> the time between the first and the last clock reading of the second call,
  and with \<open>search_elapsed_ms\<close> the \<open>elapsed_ms\<close> of the stored response; it invokes no
  provider. When the first call was not itself served from the cache, the stored entry is
  the JSON text of the response of the first call: the second response has the
  \<open>elapsed_ms\<close> of the first as \<open>search_elapsed_ms\<close> and the query, results and total of the
  first, and its errors are those of the first as they come back from the text, without
  the properties that \<^verbatim>\<open>JSON.stringify\<close> does not print.
\<close>

theorem search_cache_round_trip:
  assumes first: "search env eng query w0 = (r1, w1)"
    and second: "search env eng query w1 = (r2, w2)"
    and stored: "\<not> db_fault env (tick w1 - 1)"
    and lookup: "\<not> db_fault env (Suc (tick w1))"
    and fresh: "\<forall>row. cache_tbl w1 (hashQuery (normalizeQuery query)) = Some row \<longrightarrow>
                  clk env (Suc (tick w1)) div 1000 < row_expires_at row"
  shows "\<exists>row. cache_tbl w1 (hashQuery (normalizeQuery query)) = Some row
     \<and> r2 = (row_value row)\<lparr>resp_cached := True,
                resp_elapsed_ms := clk env (tick w2 - 1) - clk env (tick w1),
                resp_search_elapsed_ms := Some (resp_elapsed_ms (row_value row))\<rparr>
     \<and> resp_cached r2
     \<and> calls w2 = calls w1
     \<and> resp_elapsed_ms r2 = clk env (tick w2 - 1) - clk env (tick w1)
     \<and> resp_search_elapsed_ms r2 = Some (resp_elapsed_ms (row_value row))
     \<and> (\<not> resp_cached r1 \<longrightarrow>
           row_value row = json_roundtrip r1
           \<and> resp_search_elapsed_ms r2 = Some (resp_elapsed_ms r1)
           \<and> resp_query r2 = resp_query r1
           \<and> resp_results r2 = resp_results r1
           \<and> resp_total r2 = resp_total r1
           \<and> resp_errors r2 = map json_error (resp_errors r1)
           \<and> row_expires_at row = clk env (tick w1 - 1) div 1000 + cache_ttl eng query)"
proof -
  let ?key = "hashQuery (normalizeQuery query)"
  let ?n = "length (activeProviders eng (normalizeQuery query))"
  have r1: "r1 = fst (search env eng query w0)" and w1: "w1 = snd (search env eng query w0)"
    using first by simp_all
  have r2: "r2 = fst (search env eng query w1)" and w2: "w2 = snd (search env eng query w1)"
    using second by simp_all
  have row1: "\<exists>row. cache_tbl w1 ?key = Some row
      \<and> (\<not> resp_cached r1 \<longrightarrow> row_value row = json_roundtrip r1
            \<and> resp_query (json_roundtrip r1) = resp_query r1
            \<and> row_expires_at row = clk env (tick w1 - 1) div 1000 + cache_ttl eng query)"
  proof (cases "\<exists>c. fst (cache_get env ?key (w0\<lparr>tick := Suc (tick w0)\<rparr>)) = Inr (Some c)")
    case True
    then obtain c where hit: "fst (cache_get env ?key (w0\<lparr>tick := Suc (tick w0)\<rparr>)) = Inr (Some c)"
      by blast
    from cache_get_hit_row[OF hit] obtain row where "cache_tbl w0 ?key = Some row" by auto
    moreover have "cache_tbl w1 = cache_tbl w0" unfolding w1 by (rule search_hit(3)[OF hit])
    moreover have "resp_cached r1" unfolding r1 by (simp add: search_hit(1)[OF hit])
    ultimately show ?thesis by simp
  next
    case False
    then have miss: "\<forall>c. fst (cache_get env ?key (w0\<lparr>tick := Suc (tick w0)\<rparr>)) \<noteq> Inr (Some c)"
      by blast
    have t: "tick w1 = tick w0 + 4 + 2 * ?n" unfolding w1 by (rule search_miss(2)[OF miss])
    then have t': "tick w1 - 1 = tick w0 + 3 + 2 * ?n" by simp
    have nf: "\<not> db_fault env (tick w0 + 3 + 2 * ?n)" using stored unfolding t' .
    have q1: "resp_query r1 = normalizeQuery query"
      unfolding r1 by (simp add: search_miss(1)[OF miss])
    have q: "resp_query (json_roundtrip r1) = resp_query r1"
      by (simp add: q1 normalized_filters_defined)
    have "cache_tbl w1 ?key =
            Some \<lparr>row_value = json_roundtrip r1,
                  row_created_at = clk env (tick w0 + 3 + 2 * ?n) div 1000,
                  row_expires_at = clk env (tick w0 + 3 + 2 * ?n) div 1000 + cache_ttl eng query\<rparr>"
      unfolding w1 r1 using nf by (simp add: search_miss(4)[OF miss])
    then show ?thesis unfolding t' using q by simp
  qed
  then obtain row where row: "cache_tbl w1 ?key = Some row"
    and row_miss: "\<not> resp_cached r1 \<longrightarrow> row_value row = json_roundtrip r1
            \<and> resp_query (json_roundtrip r1) = resp_query r1
            \<and> row_expires_at row = clk env (tick w1 - 1) div 1000 + cache_ttl eng query"
    by blast
  have fresh': "clk env (Suc (tick w1)) div 1000 < row_expires_at row"
    using fresh row by blast
  have hit2: "fst (cache_get env ?key (w1\<lparr>tick := Suc (tick w1)\<rparr>)) = Inr (Some (row_value row))"
    using lookup row fresh' by (simp add: cache_get_ok)
  have e2: "r2 = (row_value row)\<lparr>resp_cached := True,
                resp_elapsed_ms := clk env (tick w2 - 1) - clk env (tick w1),
                resp_search_elapsed_ms := Some (resp_elapsed_ms (row_value row))\<rparr>"
    unfolding r2 w2 by (rule search_hit(1)[OF hit2])
  have c2: "calls w2 = calls w1" unfolding w2 by (rule search_hit(2)[OF hit2])
  have fields: "resp_query r2 = resp_query (row_value row)"
    "resp_results r2 = resp_results (row_value row)"
    "resp_total r2 = resp_total (row_value row)"
    "resp_errors r2 = resp_errors (row_value row)"
    "resp_cached r2"
    "resp_elapsed_ms r2 = clk env (tick w2 - 1) - clk env (tick w1)"
    "resp_search_elapsed_ms r2 = Some (resp_elapsed_ms (row_value row))"
    by (simp_all add: e2)
  have miss_fields: "row_value row = json_roundtrip r1
           \<and> resp_search_elapsed_ms r2 = Some (resp_elapsed_ms r1)
           \<and> resp_query r2 = resp_query r1
           \<and> resp_results r2 = resp_results r1
           \<and> resp_total r2 = resp_total r1
           \<and> resp_errors r2 = map json_error (resp_errors r1)
           \<and> row_expires_at row = clk env (tick w1 - 1) div 1000 + cache_ttl eng query"
    if "\<not> resp_cached r1"
  proof -
    have v: "row_value row = json_roundtrip r1"
      and q: "resp_query (json_roundtrip r1) = resp_query r1"
      and x: "row_expires_at row = clk env (tick w1 - 1) div 1000 + cache_ttl eng query"
      using row_miss that by blast+
    show ?thesis
      unfolding fields v using q x by simp
  qed
  show ?thesis
    using row e2 c2 fields(5,6,7) miss_fields by (intro exI[of _ row]) blast
qed


lemma normalize_two_provider_query: "normalizeQuery two_provider_query = two_provider_query"
  by (simp add: normalizeQuery_def two_provider_query_def sort_providers_def)

lemma normalize_github_query: "normalizeQuery github_query = github_query"
  by (simp add: normalizeQuery_def github_query_def sort_providers_def)

lemma normalize_no_provider_query: "normalizeQuery no_provider_query = no_provider_query"
  by (simp add: normalizeQuery_def no_provider_query_def sort_providers_def)

lemma aggregate_single: "0 < limit \<Longrightarrow> aggregate fl [r] limit = [r]"
  by (simp add: aggregate_def ranked_results_def unique_results_def js_sort_def slice0_def)

lemma active_two_provider:
  "activeProviders two_provider_engine (normalizeQuery two_provider_query)
     = [good_provider, timeout_provider]"
  unfolding normalize_two_provider_query
  by (simp add: activeProviders_def two_provider_engine_def two_provider_query_def
        List.map_filter_simps)


text \<open>Witness for C10: the query without providers against the world that has it cached.\<close>

theorem search_cache_hit_without_providers_witness:
  "q_providers (normalizeQuery no_provider_query) = []
   \<and> resp_cached (fst (search steady_env github_engine no_provider_query cached_world))
   \<and> metrics_tbl (snd (search steady_env github_engine no_provider_query cached_world)) = []
   \<and> resp_search_elapsed_ms (fst (search steady_env github_engine no_provider_query cached_world))
       = Some 100"
proof -
  have np: "q_providers (normalizeQuery no_provider_query) = []"
    by (simp add: normalize_no_provider_query) (simp add: no_provider_query_def)
  have hit: "fst (cache_get steady_env (hashQuery (normalizeQuery no_provider_query))
                   (snd (Date_now steady_env cached_world))) = Inr (Some example_response)"
    by (simp add: cache_get_def Date_now_def steady_env_def cached_world_def Let_def)
  note t = search_cache_hit_without_providers[OF np hit, of github_engine]
  from t have a: "resp_cached (fst (search steady_env github_engine no_provider_query cached_world))"
    by blast
  from t have "metrics_tbl (snd (search steady_env github_engine no_provider_query cached_world))
      = metrics_tbl cached_world"
    by blast
  then have b: "metrics_tbl (snd (search steady_env github_engine no_provider_query cached_world)) = []"
    by (simp add: cached_world_def)
  from t have "fst (search steady_env github_engine no_provider_query cached_world) =
           example_response\<lparr>resp_cached := True,
             resp_elapsed_ms := clk steady_env (tick cached_world + 2) - clk steady_env (tick cached_world),
             resp_search_elapsed_ms := Some (resp_elapsed_ms example_response)\<rparr>"
    by blast
  then have c: "resp_search_elapsed_ms (fst (search steady_env github_engine no_provider_query cached_world))
       = Some 100"
    by (simp add: example_response_def)
  from np a b c show ?thesis by blast
qed


text \<open>
  Witness for C3: the test \<^verbatim>\<open>returns cached result on second identical query\<close> with a
  second provider that rejects, from empty tables. The error of the first response is the
  \<^verbatim>\<open>Error\<close> object of the rejection; in the second response it has lost its message.
\<close>

theorem search_cache_round_trip_witness:
  "\<not> resp_cached (fst (search steady_env two_provider_engine two_provider_query empty_world))
   \<and> resp_cached (fst (search steady_env two_provider_engine two_provider_query
                         (snd (search steady_env two_provider_engine two_provider_query empty_world))))
   \<and> calls (snd (search steady_env two_provider_engine two_provider_query
                    (snd (search steady_env two_provider_engine two_provider_query empty_world))))
       = calls (snd (search steady_env two_provider_engine two_provider_query empty_world))
   \<and> resp_search_elapsed_ms (fst (search steady_env two_provider_engine two_provider_query
                         (snd (search steady_env two_provider_engine two_provider_query empty_world))))
       = Some (resp_elapsed_ms (fst (search steady_env two_provider_engine two_provider_query empty_world)))
   \<and> resp_results (fst (search steady_env two_provider_engine two_provider_query
                         (snd (search steady_env two_provider_engine two_provider_query empty_world))))
       = [ok_result]
   \<and> resp_errors (fst (search steady_env two_provider_engine two_provider_query empty_world))
       = [\<lparr>pe_provider = Enumerable Sourcegraph, pe_message = Hidden ''timeout'',
           pe_code = Enumerable TIMEOUT\<rparr>]
   \<and> resp_errors (fst (search steady_env two_provider_engine two_provider_query
                         (snd (search steady_env two_provider_engine two_provider_query empty_world))))
       = [\<lparr>pe_provider = Enumerable Sourcegraph, pe_message = Absent,
           pe_code = Enumerable TIMEOUT\<rparr>]"
proof -
  let ?s1 = "search steady_env two_provider_engine two_provider_query empty_world"
  let ?s2 = "search steady_env two_provider_engine two_provider_query (snd ?s1)"
  let ?key = "hashQuery (normalizeQuery two_provider_query)"
  have nofault: "\<not> db_fault steady_env i" for i
    by (simp add: steady_env_def)
  have miss: "\<forall>c. fst (cache_get steady_env ?key (empty_world\<lparr>tick := Suc (tick empty_world)\<rparr>))
                \<noteq> Inr (Some c)"
    by (simp add: cache_get_def Date_now_def steady_env_def empty_world_def Let_def)
  note active = active_two_provider
  have settled: "settlements_of two_provider_engine (normalizeQuery two_provider_query)
      = [(Fulfilled [ok_result], good_provider), (Rejected timeout_reason, timeout_provider)]"
    by (simp add: settlements_of_def active good_provider_def timeout_provider_def)
  have t1: "tick (snd ?s1) = 8"
    using search_miss(2)[OF miss, of two_provider_engine] by (simp add: active empty_world_def)
  have c1: "\<not> resp_cached (fst ?s1)"
    by (simp add: search_miss(1)[OF miss])
  have lim: "aggregate (arith steady_env) [ok_result] (q_limit two_provider_query) = [ok_result]"
    by (simp add: aggregate_single two_provider_query_def)
  have res1: "resp_results (fst ?s1) = [ok_result]"
    unfolding search_miss(1)[OF miss] settled
    by (simp add: normalize_two_provider_query lim)
  have err1: "resp_errors (fst ?s1)
       = [\<lparr>pe_provider = Enumerable Sourcegraph, pe_message = Hidden ''timeout'',
           pe_code = Enumerable TIMEOUT\<rparr>]"
    unfolding search_miss(1)[OF miss] settled
    by (simp add: provider_error_def isProviderError_def as_ProviderError_def timeout_reason_def)
  have tbl: "cache_tbl (snd ?s1) ?key =
       Some \<lparr>row_value = json_roundtrip (fst ?s1),
             row_created_at = clk steady_env 7 div 1000,
             row_expires_at = clk steady_env 7 div 1000
                + cache_ttl two_provider_engine two_provider_query\<rparr>"
    using search_miss(4)[OF miss, of two_provider_engine] nofault
    by (simp add: active empty_world_def)
  have fresh: "\<forall>row. cache_tbl (snd ?s1) ?key = Some row \<longrightarrow>
                  clk steady_env (Suc (tick (snd ?s1))) div 1000 < row_expires_at row"
    unfolding tbl t1
    by (simp add: steady_env_def cache_ttl_def two_provider_engine_def two_provider_query_def)
  have first: "?s1 = (fst ?s1, snd ?s1)" by simp
  have second: "?s2 = (fst ?s2, snd ?s2)" by simp
  from search_cache_round_trip[OF first second nofault nofault fresh]
  obtain row where row: "cache_tbl (snd ?s1) ?key = Some row"
    and a: "resp_cached (fst ?s2)"
    and b: "calls (snd ?s2) = calls (snd ?s1)"
    and c: "\<not> resp_cached (fst ?s1) \<longrightarrow>
              resp_search_elapsed_ms (fst ?s2) = Some (resp_elapsed_ms (fst ?s1))
              \<and> resp_results (fst ?s2) = resp_results (fst ?s1)
              \<and> resp_errors (fst ?s2) = map json_error (resp_errors (fst ?s1))"
    by blast
  from c c1 have d: "resp_search_elapsed_ms (fst ?s2) = Some (resp_elapsed_ms (fst ?s1))"
    and res2: "resp_results (fst ?s2) = resp_results (fst ?s1)"
    and err2: "resp_errors (fst ?s2) = map json_error (resp_errors (fst ?s1))"
    by blast+
  have err2': "resp_errors (fst ?s2)
       = [\<lparr>pe_provider = Enumerable Sourcegraph, pe_message = Absent,
           pe_code = Enumerable TIMEOUT\<rparr>]"
    unfolding err2 err1 by (simp add: json_error_def)
  have res2': "resp_results (fst ?s2) = [ok_result]"
    unfolding res2 res1 ..
  from c1 a b d res2' err1 err2' show ?thesis by blast
qed


text \<open>
  For comparison with C10: with a first provider in the normalized list, a cache hit
  appends one cache-hit record for that provider.
\<close>

lemma search_cache_hit_first_provider:
  assumes "q_providers (normalizeQuery query) = p # ps"
    and "fst (cache_get env (hashQuery (normalizeQuery query)) (snd (Date_now env w0))) = Inr (Some c)"
    and "\<not> db_fault env (tick w0 + 2)"
  shows "metrics_tbl (snd (search env eng query w0)) =
           metrics_tbl w0 @
             [\<lparr>mrow_ts = clk env (tick w0 + 2) div 1000, mrow_provider = p,
               mrow_query = Some (q_q query), mrow_cache_hit = 1,
               mrow_results = Some (int (length (resp_results c))),
               mrow_elapsed_ms = Some 0, mrow_error = None\<rparr>]"
proof -
  have q: "q_q (normalizeQuery query) = q_q query" by (simp add: normalizeQuery_def)
  show ?thesis
    using assms
    by (simp add: search_def Let_def split_def cache_get_snd metrics_record_def Date_now_def q)
qed

end
